theory Spec2Isabelle
  imports Main "HOL-Library.Word" "HOL-Library.Tree"
begin

unbundle bit_operations_syntax

section \<open>The virtio-iommu mapping engine of \<^verbatim>\<open>src/hw/vfio/ioas.c\<close>\<close>

text \<open>
  The source file holds two generations of the same device model.
  \<^item> Lines 302-966, called variant A below: endpoints and domains, mapping keys
    \<open>[virt_start, virt_end]\<close>, a comparator with strict \<open><\<close>, the bypass feature and
    the \<open>RANGE\<close> status of UNMAP.
  \<^item> Lines 986-2071, called variant B below: devices and address spaces, mapping keys
    \<open>[virt_addr, virt_addr + size - 1]\<close>, a comparator with \<open>\<le>\<close>, notifier fan-out
    and the PROBE request.
  Functions and types that exist in both carry the suffix \<open>_A\<close> or \<open>_B\<close>; a struct field
  whose name occurs in several structs is prefixed with the struct it belongs to.
\<close>

type_synonym u16 = "16 word"
type_synonym u32 = "32 word"
type_synonym u64 = "64 word"

subsection \<open>Status codes and flags (UAPI constants)\<close>

text \<open>
  The header \<^verbatim>\<open>linux/virtio_iommu.h\<close> and \<^verbatim>\<open>exec/memory.h\<close> are not part of the
  sources; the values below are the ones of the virtio-iommu UAPI and of QEMU's
  \<^verbatim>\<open>IOMMUAccessFlags\<close>. Only their being pairwise different matters to the results.
\<close>

definition VIRTIO_IOMMU_S_OK :: int where "VIRTIO_IOMMU_S_OK = 0"
definition VIRTIO_IOMMU_S_UNSUPP :: int where "VIRTIO_IOMMU_S_UNSUPP = 2"
definition VIRTIO_IOMMU_S_DEVERR :: int where "VIRTIO_IOMMU_S_DEVERR = 3"
definition VIRTIO_IOMMU_S_INVAL :: int where "VIRTIO_IOMMU_S_INVAL = 4"
definition VIRTIO_IOMMU_S_RANGE :: int where "VIRTIO_IOMMU_S_RANGE = 5"
definition VIRTIO_IOMMU_S_NOENT :: int where "VIRTIO_IOMMU_S_NOENT = 6"

definition EINVAL :: int where "EINVAL = 22"
definition ENOSPC :: int where "ENOSPC = 28"
definition ENOENT :: int where "ENOENT = 2"

definition VIRTIO_IOMMU_MAP_F_READ :: u32 where "VIRTIO_IOMMU_MAP_F_READ = 1"
definition VIRTIO_IOMMU_MAP_F_WRITE :: u32 where "VIRTIO_IOMMU_MAP_F_WRITE = 2"

definition VIRTIO_IOMMU_F_BYPASS :: nat where "VIRTIO_IOMMU_F_BYPASS = 3"

definition IOMMU_NONE :: u32 where "IOMMU_NONE = 0"
definition IOMMU_RO :: u32 where "IOMMU_RO = 1"
definition IOMMU_WO :: u32 where "IOMMU_WO = 2"
definition IOMMU_RW :: u32 where "IOMMU_RW = 3"

lemmas status_defs =
  VIRTIO_IOMMU_S_OK_def VIRTIO_IOMMU_S_UNSUPP_def VIRTIO_IOMMU_S_DEVERR_def
  VIRTIO_IOMMU_S_INVAL_def VIRTIO_IOMMU_S_RANGE_def VIRTIO_IOMMU_S_NOENT_def

lemmas flag_defs =
  VIRTIO_IOMMU_MAP_F_READ_def VIRTIO_IOMMU_MAP_F_WRITE_def
  IOMMU_NONE_def IOMMU_RO_def IOMMU_WO_def IOMMU_RW_def

subsection \<open>Shared data: intervals, the translation result, the PCI identity\<close>

record viommu_interval =
  low :: u64
  high :: u64

record IOMMUTLBEntry =
  iova :: u64
  translated_addr :: u64
  addr_mask :: u64
  perm :: u32

text \<open>
  \<^verbatim>\<open>IOMMUDevice\<close>: the bus is represented by its number (what \<^verbatim>\<open>pci_bus_num\<close>
  returns), \<^verbatim>\<open>devfn\<close> is a C \<^verbatim>\<open>int\<close>.
\<close>

record IOMMUDevice =
  bus_num :: int
  devfn :: int

text \<open>\<^verbatim>\<open>PCI_BUILD_BDF(bus, devfn)\<close> is \<^verbatim>\<open>(bus << 8) | devfn\<close>, truncated to 16 bits.\<close>

definition virtio_iommu_get_sid :: "IOMMUDevice \<Rightarrow> u16" where
  "virtio_iommu_get_sid dev = word_of_int (push_bit 8 (bus_num dev) OR devfn dev)"

text \<open>\<^verbatim>\<open>ctz32\<close>: the number of trailing zero bits, 32 for the value 0.\<close>

fun ctz_from :: "nat \<Rightarrow> u32 \<Rightarrow> nat" where
  "ctz_from 0 w = 0"
| "ctz_from (Suc n) w = (if bit w 0 then 0 else Suc (ctz_from n (drop_bit 1 w)))"

definition ctz32 :: "u32 \<Rightarrow> nat" where
  "ctz32 w = (if w = 0 then 32 else ctz_from 32 w)"

text \<open>
  \<^verbatim>\<open>(1 << ctz32(s->config.page_size_mask)) - 1\<close>, an \<^verbatim>\<open>int\<close> expression converted to
  \<^verbatim>\<open>hwaddr\<close>. C defines it for shifts below 31 only, that is when one of the low 31 bits
  of the page size mask is set; for the other masks the definition continues the formula
  \<open>2 ^ n - 1\<close>, which the compiled code need not do. No result below depends on the
  mask of a translation.
\<close>

definition translate_addr_mask :: "u64 \<Rightarrow> u64" where
  "translate_addr_mask page_size_mask = word_of_int (2 ^ ctz32 (ucast page_size_mask) - 1)"

subsection \<open>GLib's \<^verbatim>\<open>GTree\<close>\<close>

text \<open>
  \<^verbatim>\<open>GTree\<close> is GLib's balanced binary search tree; GLib is an external library. The
  model keeps what the engine relies on: a reference count, a binary tree of key/value
  nodes, and a search that calls the comparator as \<^verbatim>\<open>key_compare(key, node->key)\<close>,
  stops at 0, goes left below 0 and right above 0. Insertion and removal follow the same
  search path; insertion adds a leaf, removal of a node with two children puts its
  in-order successor in its place (as GLib does). GLib's rebalancing rotations change the
  shape but not the in-order sequence; they are not modelled: the general results below
  quantify over every tree shape, and the example runs build trees of at most three nodes
  on which GLib makes no rotation.
\<close>

record ('k, 'v) GTree =
  root :: "('k \<times> 'v) tree"
  ref_count :: nat

definition g_tree_new_full :: "('k, 'v) GTree" where
  "g_tree_new_full = \<lparr>root = Leaf, ref_count = 1\<rparr>"

definition g_tree_ref :: "('k, 'v) GTree \<Rightarrow> ('k, 'v) GTree" where
  "g_tree_ref t = t\<lparr>ref_count := ref_count t + 1\<rparr>"

text \<open>Dropping the last reference destroys all nodes.\<close>

definition g_tree_unref :: "('k, 'v) GTree \<Rightarrow> ('k, 'v) GTree" where
  "g_tree_unref t =
     (if ref_count t \<le> 1 then \<lparr>root = Leaf, ref_count = 0\<rparr>
      else t\<lparr>ref_count := ref_count t - 1\<rparr>)"

fun g_tree_find_node :: "('k \<Rightarrow> 'k \<Rightarrow> int) \<Rightarrow> ('k \<times> 'v) tree \<Rightarrow> 'k \<Rightarrow> ('k \<times> 'v) option" where
  "g_tree_find_node cmp Leaf key = None"
| "g_tree_find_node cmp (Node l (k, v) r) key =
     (if cmp key k = 0 then Some (k, v)
      else if cmp key k < 0 then g_tree_find_node cmp l key
      else g_tree_find_node cmp r key)"

definition g_tree_lookup_extended ::
  "('k \<Rightarrow> 'k \<Rightarrow> int) \<Rightarrow> ('k, 'v) GTree \<Rightarrow> 'k \<Rightarrow> ('k \<times> 'v) option" where
  "g_tree_lookup_extended cmp t key = g_tree_find_node cmp (root t) key"

definition g_tree_lookup :: "('k \<Rightarrow> 'k \<Rightarrow> int) \<Rightarrow> ('k, 'v) GTree \<Rightarrow> 'k \<Rightarrow> 'v option" where
  "g_tree_lookup cmp t key = map_option snd (g_tree_find_node cmp (root t) key)"

text \<open>
  \<^verbatim>\<open>g_tree_insert\<close>: a key that compares equal to a stored one keeps the stored key and
  replaces its value; otherwise a new leaf is added where the search ended.
\<close>

fun g_tree_insert_node ::
  "('k \<Rightarrow> 'k \<Rightarrow> int) \<Rightarrow> ('k \<times> 'v) tree \<Rightarrow> 'k \<Rightarrow> 'v \<Rightarrow> ('k \<times> 'v) tree" where
  "g_tree_insert_node cmp Leaf key val = Node Leaf (key, val) Leaf"
| "g_tree_insert_node cmp (Node l (k, v) r) key val =
     (if cmp key k = 0 then Node l (k, val) r
      else if cmp key k < 0 then Node (g_tree_insert_node cmp l key val) (k, v) r
      else Node l (k, v) (g_tree_insert_node cmp r key val))"

definition g_tree_insert ::
  "('k \<Rightarrow> 'k \<Rightarrow> int) \<Rightarrow> ('k, 'v) GTree \<Rightarrow> 'k \<Rightarrow> 'v \<Rightarrow> ('k, 'v) GTree" where
  "g_tree_insert cmp t key val = t\<lparr>root := g_tree_insert_node cmp (root t) key val\<rparr>"

text \<open>The leftmost node of a non-empty tree and the tree without it.\<close>

fun g_tree_split_first ::
  "('k \<times> 'v) tree \<Rightarrow> ('k \<times> 'v) \<Rightarrow> ('k \<times> 'v) tree \<Rightarrow> ('k \<times> 'v) \<times> ('k \<times> 'v) tree" where
  "g_tree_split_first Leaf a r = (a, r)"
| "g_tree_split_first (Node ll b lr) a r =
     (case g_tree_split_first ll b lr of (m, l') \<Rightarrow> (m, Node l' a r))"

fun g_tree_remove_node :: "('k \<Rightarrow> 'k \<Rightarrow> int) \<Rightarrow> ('k \<times> 'v) tree \<Rightarrow> 'k \<Rightarrow> ('k \<times> 'v) tree" where
  "g_tree_remove_node cmp Leaf key = Leaf"
| "g_tree_remove_node cmp (Node l (k, v) r) key =
     (if cmp key k = 0 then
        (case l of
           Leaf \<Rightarrow> r
         | Node _ _ _ \<Rightarrow>
             (case r of
                Leaf \<Rightarrow> l
              | Node rl b rr \<Rightarrow>
                  (case g_tree_split_first rl b rr of (succ, r') \<Rightarrow> Node l succ r')))
      else if cmp key k < 0 then Node (g_tree_remove_node cmp l key) (k, v) r
      else Node l (k, v) (g_tree_remove_node cmp r key))"

definition g_tree_remove :: "('k \<Rightarrow> 'k \<Rightarrow> int) \<Rightarrow> ('k, 'v) GTree \<Rightarrow> 'k \<Rightarrow> ('k, 'v) GTree" where
  "g_tree_remove cmp t key = t\<lparr>root := g_tree_remove_node cmp (root t) key\<rparr>"

text \<open>\<^verbatim>\<open>g_tree_foreach\<close> visits the nodes in sorted (in-order) sequence.\<close>

definition g_tree_entries :: "('k, 'v) GTree \<Rightarrow> ('k \<times> 'v) list" where
  "g_tree_entries t = inorder (root t)"

subsection \<open>Variant A: endpoints and domains (lines 302-966)\<close>

record viommu_mapping_A =
  phys_addr_A :: u64
  flags_A :: u32

record viommu_domain =
  domain_id :: u32
  domain_mappings :: "(viommu_interval, viommu_mapping_A) GTree"
  endpoint_list :: "u32 list"

text \<open>
  \<^verbatim>\<open>ep->domain\<close> points into the domain registry; no command removes a domain from
  the registry, so the pointer is represented by the domain's identifier.
\<close>

record viommu_endpoint =
  ep_id :: u32
  ep_domain :: "u32 option"

record VirtIOIOMMU_A =
  domains :: "u32 \<rightharpoonup> viommu_domain"
  endpoints :: "u32 \<rightharpoonup> viommu_endpoint"
  acked_features :: u64
  page_size_mask_A :: u64

record virtio_iommu_req_attach_A =
  attach_domain_A :: u32
  attach_endpoint_A :: u32

record virtio_iommu_req_detach_A =
  detach_domain_A :: u32
  detach_endpoint_A :: u32

record virtio_iommu_req_map_A =
  map_domain_A :: u32
  map_phys_start_A :: u64
  map_virt_start_A :: u64
  map_virt_end_A :: u64
  map_flags_A :: u32

record virtio_iommu_req_unmap_A =
  unmap_domain_A :: u32
  unmap_virt_start_A :: u64
  unmap_virt_end_A :: u64

definition interval_cmp_A :: "viommu_interval \<Rightarrow> viommu_interval \<Rightarrow> int" where
  "interval_cmp_A inta intb =
     (if high inta < low intb then - 1
      else if high intb < low inta then 1
      else 0)"

text \<open>
  \<^verbatim>\<open>virtio_iommu_detach_endpoint_from_domain\<close>; its callers pass an endpoint whose
  \<^verbatim>\<open>domain\<close> is set, here the identifier \<open>d\<close>.
\<close>

definition virtio_iommu_detach_endpoint_from_domain ::
  "VirtIOIOMMU_A \<Rightarrow> viommu_endpoint \<Rightarrow> u32 \<Rightarrow> VirtIOIOMMU_A" where
  "virtio_iommu_detach_endpoint_from_domain s ep d =
     s\<lparr>domains :=
         (case domains s d of
            None \<Rightarrow> domains s
          | Some domain \<Rightarrow>
              (domains s)(d \<mapsto> domain\<lparr>endpoint_list := remove1 (ep_id ep) (endpoint_list domain),
                                     domain_mappings := g_tree_unref (domain_mappings domain)\<rparr>)),
       endpoints := (endpoints s)(ep_id ep \<mapsto> ep\<lparr>ep_domain := None\<rparr>)\<rparr>"

definition virtio_iommu_get_endpoint ::
  "VirtIOIOMMU_A \<Rightarrow> u32 \<Rightarrow> viommu_endpoint \<times> VirtIOIOMMU_A" where
  "virtio_iommu_get_endpoint s ep_id' =
     (case endpoints s ep_id' of
        Some ep \<Rightarrow> (ep, s)
      | None \<Rightarrow>
          (let ep = \<lparr>ep_id = ep_id', ep_domain = None\<rparr>
           in (ep, s\<lparr>endpoints := (endpoints s)(ep_id' \<mapsto> ep)\<rparr>)))"

definition virtio_iommu_get_domain ::
  "VirtIOIOMMU_A \<Rightarrow> u32 \<Rightarrow> viommu_domain \<times> VirtIOIOMMU_A" where
  "virtio_iommu_get_domain s domain_id' =
     (case domains s domain_id' of
        Some domain \<Rightarrow> (domain, s)
      | None \<Rightarrow>
          (let domain = \<lparr>domain_id = domain_id', domain_mappings = g_tree_new_full,
                      endpoint_list = []\<rparr>
           in (domain, s\<lparr>domains := (domains s)(domain_id' \<mapsto> domain)\<rparr>)))"

definition virtio_iommu_attach_A ::
  "VirtIOIOMMU_A \<Rightarrow> virtio_iommu_req_attach_A \<Rightarrow> int \<times> VirtIOIOMMU_A" where
  "virtio_iommu_attach_A s req =
     (let domain_id' = attach_domain_A req;
          ep_id' = attach_endpoint_A req;
          (ep, s1) = virtio_iommu_get_endpoint s ep_id';
          s2 = (case ep_domain ep of
                  Some d \<Rightarrow> virtio_iommu_detach_endpoint_from_domain s1 ep d
                | None \<Rightarrow> s1);
          (domain, s3) = virtio_iommu_get_domain s2 domain_id';
          domain' = domain\<lparr>endpoint_list := ep_id' # endpoint_list domain,
                     domain_mappings := g_tree_ref (domain_mappings domain)\<rparr>;
          ep' = ep\<lparr>ep_domain := Some domain_id'\<rparr>
      in (VIRTIO_IOMMU_S_OK,
          s3\<lparr>domains := (domains s3)(domain_id' \<mapsto> domain'),
             endpoints := (endpoints s3)(ep_id' \<mapsto> ep')\<rparr>))"

definition virtio_iommu_detach_A ::
  "VirtIOIOMMU_A \<Rightarrow> virtio_iommu_req_detach_A \<Rightarrow> int \<times> VirtIOIOMMU_A" where
  "virtio_iommu_detach_A s req =
     (case endpoints s (detach_endpoint_A req) of
        None \<Rightarrow> (VIRTIO_IOMMU_S_NOENT, s)
      | Some ep \<Rightarrow>
          (case ep_domain ep of
             None \<Rightarrow> (VIRTIO_IOMMU_S_INVAL, s)
           | Some d \<Rightarrow> (VIRTIO_IOMMU_S_OK, virtio_iommu_detach_endpoint_from_domain s ep d)))"

definition virtio_iommu_map_A ::
  "VirtIOIOMMU_A \<Rightarrow> virtio_iommu_req_map_A \<Rightarrow> int \<times> VirtIOIOMMU_A" where
  "virtio_iommu_map_A s req =
     (let interval = \<lparr>low = map_virt_start_A req, high = map_virt_end_A req\<rparr>
      in case domains s (map_domain_A req) of
           None \<Rightarrow> (VIRTIO_IOMMU_S_NOENT, s)
         | Some domain \<Rightarrow>
             (case g_tree_lookup interval_cmp_A (domain_mappings domain) interval of
                Some mapping \<Rightarrow> (VIRTIO_IOMMU_S_INVAL, s)
              | None \<Rightarrow>
                  (let mapping = \<lparr>phys_addr_A = map_phys_start_A req, flags_A = map_flags_A req\<rparr>
                   in (VIRTIO_IOMMU_S_OK,
                       s\<lparr>domains := (domains s)(map_domain_A req \<mapsto>
                            domain\<lparr>domain_mappings :=
                              g_tree_insert interval_cmp_A (domain_mappings domain) interval mapping\<rparr>)\<rparr>))))"

text \<open>
  The \<^verbatim>\<open>while\<close> loop of \<^verbatim>\<open>virtio_iommu_unmap\<close>. It ends when the search finds
  nothing or finds an entry the request does not cover; \<open>None\<close> stands for a loop that
  never ends.
\<close>

partial_function (option) unmap_loop_A ::
  "(viommu_interval, viommu_mapping_A) GTree \<Rightarrow> viommu_interval
     \<Rightarrow> (int \<times> (viommu_interval, viommu_mapping_A) GTree) option" where
  "unmap_loop_A mappings interval =
     (case g_tree_lookup_extended interval_cmp_A mappings interval of
        None \<Rightarrow> Some (VIRTIO_IOMMU_S_OK, mappings)
      | Some (iter_key, iter_val) \<Rightarrow>
          if low interval \<le> low iter_key \<and> high interval \<ge> high iter_key
          then unmap_loop_A (g_tree_remove interval_cmp_A mappings iter_key) interval
          else Some (VIRTIO_IOMMU_S_RANGE, mappings))"

declare unmap_loop_A.simps [code]

definition virtio_iommu_unmap_A ::
  "VirtIOIOMMU_A \<Rightarrow> virtio_iommu_req_unmap_A \<Rightarrow> (int \<times> VirtIOIOMMU_A) option" where
  "virtio_iommu_unmap_A s req =
     (case domains s (unmap_domain_A req) of
        None \<Rightarrow> Some (VIRTIO_IOMMU_S_NOENT, s)
      | Some domain \<Rightarrow>
          (case unmap_loop_A (domain_mappings domain)
                  \<lparr>low = unmap_virt_start_A req, high = unmap_virt_end_A req\<rparr> of
             None \<Rightarrow> None
           | Some (ret, mappings') \<Rightarrow>
               Some (ret, s\<lparr>domains := (domains s)(unmap_domain_A req \<mapsto>
                                 domain\<lparr>domain_mappings := mappings'\<rparr>)\<rparr>)))"

definition virtio_has_feature :: "u64 \<Rightarrow> nat \<Rightarrow> bool" where
  "virtio_has_feature features fbit = bit features fbit"

definition virtio_iommu_translate_A ::
  "VirtIOIOMMU_A \<Rightarrow> IOMMUDevice \<Rightarrow> u64 \<Rightarrow> u32 \<Rightarrow> IOMMUTLBEntry" where
  "virtio_iommu_translate_A s sdev addr flag =
     (let interval = \<lparr>low = addr, high = addr + 1\<rparr>;
          entry = \<lparr>iova = addr, translated_addr = addr,
                   addr_mask = translate_addr_mask (page_size_mask_A s), perm = IOMMU_NONE\<rparr>;
          bypass_allowed = virtio_has_feature (acked_features s) VIRTIO_IOMMU_F_BYPASS;
          sid = virtio_iommu_get_sid sdev
      in case endpoints s (ucast sid) of
           None \<Rightarrow> (if \<not> bypass_allowed then entry else entry\<lparr>perm := flag\<rparr>)
         | Some ep \<Rightarrow>
             (case ep_domain ep of
                None \<Rightarrow> (if \<not> bypass_allowed then entry else entry\<lparr>perm := flag\<rparr>)
              | Some d \<Rightarrow>
                  (case domains s d of
                     None \<Rightarrow> entry
                   | Some domain \<Rightarrow>
                       (case g_tree_lookup_extended interval_cmp_A (domain_mappings domain) interval of
                          None \<Rightarrow> entry
                        | Some (mapping_key, mapping_value) \<Rightarrow>
                            if (flag AND IOMMU_RO \<noteq> 0 \<and>
                                  flags_A mapping_value AND VIRTIO_IOMMU_MAP_F_READ = 0) \<or>
                               (flag AND IOMMU_WO \<noteq> 0 \<and>
                                  flags_A mapping_value AND VIRTIO_IOMMU_MAP_F_WRITE = 0)
                            then entry
                            else entry\<lparr>translated_addr :=
                                         addr - low mapping_key + phys_addr_A mapping_value,
                                       perm := flag\<rparr>))))"

text \<open>The state after \<^verbatim>\<open>virtio_iommu_device_realize\<close>: empty registries.\<close>

definition init_A :: "u64 \<Rightarrow> u64 \<Rightarrow> VirtIOIOMMU_A" where
  "init_A features psm =
     \<lparr>domains = Map.empty, endpoints = Map.empty, acked_features = features,
      page_size_mask_A = psm\<rparr>"

subsection \<open>Variant B: devices and address spaces (lines 986-2071)\<close>

definition VIOMMU_PROBE_SIZE :: nat where "VIOMMU_PROBE_SIZE = 512"

definition VIRTIO_IOMMU_PROBE_T_NONE :: int where "VIRTIO_IOMMU_PROBE_T_NONE = 0"
definition VIRTIO_IOMMU_PROBE_T_RESV_MEM :: int where "VIRTIO_IOMMU_PROBE_T_RESV_MEM = 1"

definition SUPPORTED_PROBE_PROPERTIES :: int where
  "SUPPORTED_PROBE_PROPERTIES = VIRTIO_IOMMU_PROBE_T_NONE OR VIRTIO_IOMMU_PROBE_T_RESV_MEM"

text \<open>The struct field \<^verbatim>\<open>size\<close> is called \<open>msize\<close>.\<close>

record viommu_mapping_B =
  virt_addr :: u64
  phys_addr :: u64
  msize :: u64
  flags :: u32

text \<open>
  \<^verbatim>\<open>struct virtio_iommu_probe_resv_mem\<close> is declared in a header outside the sources;
  the code reads its fields \<^verbatim>\<open>subtype\<close>, \<^verbatim>\<open>addr\<close>, \<^verbatim>\<open>size\<close>, \<^verbatim>\<open>flags\<close> and its
  \<^verbatim>\<open>sizeof\<close>, which the probe functions take as the parameter \<open>resv_sz\<close>.
\<close>

record virtio_iommu_probe_resv_mem =
  resv_subtype :: "8 word"
  resv_addr :: u64
  resv_size :: u64
  resv_flags :: u32

record viommu_as =
  as_id :: u32
  as_mappings :: "(viommu_interval, viommu_mapping_B) GTree"
  device_list :: "u32 list"

text \<open>\<^verbatim>\<open>dev->as\<close> is represented by the identifier of the address space it points to.\<close>

record viommu_dev =
  dev_id :: u32
  dev_as :: "u32 option"
  reserved_regions :: "(viommu_interval, virtio_iommu_probe_resv_mem) GTree"

text \<open>
  \<^verbatim>\<open>notifiers_list\<close> holds one node per memory region with a registered notifier,
  identified by its \<^verbatim>\<open>IOMMUDevice\<close>. \<open>notified\<close> records the calls of
  \<^verbatim>\<open>memory_region_notify_iommu\<close> in the order they are made.
\<close>

record VirtIOIOMMU_B =
  address_spaces :: "u32 \<rightharpoonup> viommu_as"
  devices :: "u32 \<rightharpoonup> viommu_dev"
  notifiers_list :: "IOMMUDevice list"
  page_size_mask_B :: u64
  notified :: "(IOMMUDevice \<times> IOMMUTLBEntry) list"

record virtio_iommu_req_attach_B =
  attach_address_space :: u32
  attach_device :: u32
  attach_reserved :: u32


record virtio_iommu_req_map_B =
  map_address_space :: u32
  map_phys_addr :: u64
  map_virt_addr :: u64
  map_size :: u64
  map_flags :: u32

record virtio_iommu_req_unmap_B =
  unmap_address_space :: u32
  unmap_virt_addr :: u64
  unmap_size :: u64

record virtio_iommu_req_probe =
  probe_device :: u32

definition interval_cmp_B :: "viommu_interval \<Rightarrow> viommu_interval \<Rightarrow> int" where
  "interval_cmp_B inta intb =
     (if high inta \<le> low intb then - 1
      else if high intb \<le> low inta then 1
      else 0)"

definition virtio_iommu_notify_map ::
  "IOMMUDevice \<Rightarrow> u64 \<Rightarrow> u64 \<Rightarrow> u64 \<Rightarrow> IOMMUDevice \<times> IOMMUTLBEntry" where
  "virtio_iommu_notify_map mr iova' paddr sz =
     (mr, \<lparr>iova = iova', translated_addr = paddr, addr_mask = sz - 1, perm = IOMMU_RW\<rparr>)"

definition virtio_iommu_notify_unmap ::
  "IOMMUDevice \<Rightarrow> u64 \<Rightarrow> u64 \<Rightarrow> u64 \<Rightarrow> IOMMUDevice \<times> IOMMUTLBEntry" where
  "virtio_iommu_notify_unmap mr iova' paddr sz =
     (mr, \<lparr>iova = iova', translated_addr = 0, addr_mask = sz - 1, perm = IOMMU_NONE\<rparr>)"

text \<open>
  \<^verbatim>\<open>g_tree_foreach\<close> calls the function on every node in sorted order and stops as soon
  as it returns true.
\<close>

fun foreach_entries :: "('k \<Rightarrow> 'v \<Rightarrow> 'd \<Rightarrow> bool \<times> 'd) \<Rightarrow> ('k \<times> 'v) list \<Rightarrow> 'd \<Rightarrow> 'd" where
  "foreach_entries f [] d = d"
| "foreach_entries f ((k, v) # xs) d =
     (case f k v d of (stop, d') \<Rightarrow> if stop then d' else foreach_entries f xs d')"

definition g_tree_foreach ::
  "('k, 'v) GTree \<Rightarrow> ('k \<Rightarrow> 'v \<Rightarrow> 'd \<Rightarrow> bool \<times> 'd) \<Rightarrow> 'd \<Rightarrow> 'd" where
  "g_tree_foreach t f d = foreach_entries f (g_tree_entries t) d"

text \<open>
  The traversal callbacks; their \<^verbatim>\<open>data\<close> argument is the memory region, the
  notifications they make are appended to the list.
\<close>

definition virtio_iommu_mapping_unmap ::
  "IOMMUDevice \<Rightarrow> viommu_interval \<Rightarrow> viommu_mapping_B \<Rightarrow> (IOMMUDevice \<times> IOMMUTLBEntry) list
     \<Rightarrow> bool \<times> (IOMMUDevice \<times> IOMMUTLBEntry) list" where
  "virtio_iommu_mapping_unmap mr key mapping out =
     (False, out @ [virtio_iommu_notify_unmap mr (virt_addr mapping) 0 (msize mapping)])"

definition virtio_iommu_mapping_map ::
  "IOMMUDevice \<Rightarrow> viommu_interval \<Rightarrow> viommu_mapping_B \<Rightarrow> (IOMMUDevice \<times> IOMMUTLBEntry) list
     \<Rightarrow> bool \<times> (IOMMUDevice \<times> IOMMUTLBEntry) list" where
  "virtio_iommu_mapping_map mr key mapping out =
     (False, out @ [virtio_iommu_notify_map mr (virt_addr mapping) (phys_addr mapping)
                      (msize mapping)])"

text \<open>A notifier node belongs to a device when \<^verbatim>\<open>dev->id == node->iommu_dev->devfn\<close>.\<close>

definition node_matches :: "u32 \<Rightarrow> IOMMUDevice \<Rightarrow> bool" where
  "node_matches devid node = (devid = word_of_int (devfn node))"

text \<open>
  \<^verbatim>\<open>QLIST_FOREACH(node, &s->notifiers_list, next)\<close> around a tree traversal, as in
  \<^verbatim>\<open>virtio_iommu_detach_dev_from_as\<close> and \<^verbatim>\<open>virtio_iommu_attach\<close>.
\<close>

fun foreach_node_tree ::
  "(IOMMUDevice \<Rightarrow> viommu_interval \<Rightarrow> viommu_mapping_B \<Rightarrow> (IOMMUDevice \<times> IOMMUTLBEntry) list
      \<Rightarrow> bool \<times> (IOMMUDevice \<times> IOMMUTLBEntry) list)
   \<Rightarrow> u32 \<Rightarrow> (viommu_interval, viommu_mapping_B) GTree \<Rightarrow> IOMMUDevice list
   \<Rightarrow> (IOMMUDevice \<times> IOMMUTLBEntry) list \<Rightarrow> (IOMMUDevice \<times> IOMMUTLBEntry) list" where
  "foreach_node_tree f devid t [] out = out"
| "foreach_node_tree f devid t (node # nodes) out =
     foreach_node_tree f devid t nodes
       (if node_matches devid node then g_tree_foreach t (f node) out else out)"

text \<open>
  \<^verbatim>\<open>virtio_iommu_detach_dev_from_as\<close>; its callers pass a device whose \<^verbatim>\<open>as\<close> is
  set, here the identifier \<open>asid\<close>. The tree's reference is not dropped here.
\<close>

definition virtio_iommu_detach_dev_from_as ::
  "VirtIOIOMMU_B \<Rightarrow> viommu_dev \<Rightarrow> u32 \<Rightarrow> VirtIOIOMMU_B" where
  "virtio_iommu_detach_dev_from_as s dev asid =
     (case address_spaces s asid of
        None \<Rightarrow> s\<lparr>devices := (devices s)(dev_id dev \<mapsto> dev\<lparr>dev_as := None\<rparr>)\<rparr>
      | Some aspace \<Rightarrow>
          s\<lparr>notified := foreach_node_tree virtio_iommu_mapping_unmap (dev_id dev)
                          (as_mappings aspace) (notifiers_list s) (notified s),
            address_spaces := (address_spaces s)(asid \<mapsto>
                aspace\<lparr>device_list := remove1 (dev_id dev) (device_list aspace)\<rparr>),
            devices := (devices s)(dev_id dev \<mapsto> dev\<lparr>dev_as := None\<rparr>)\<rparr>)"

definition virtio_iommu_get_dev :: "VirtIOIOMMU_B \<Rightarrow> u32 \<Rightarrow> viommu_dev \<times> VirtIOIOMMU_B" where
  "virtio_iommu_get_dev s devid =
     (case devices s devid of
        Some dev \<Rightarrow> (dev, s)
      | None \<Rightarrow>
          (let dev = \<lparr>dev_id = devid, dev_as = None, reserved_regions = g_tree_new_full\<rparr>
           in (dev, s\<lparr>devices := (devices s)(devid \<mapsto> dev)\<rparr>)))"

definition virtio_iommu_get_as :: "VirtIOIOMMU_B \<Rightarrow> u32 \<Rightarrow> viommu_as \<times> VirtIOIOMMU_B" where
  "virtio_iommu_get_as s asid =
     (case address_spaces s asid of
        Some aspace \<Rightarrow> (aspace, s)
      | None \<Rightarrow>
          (let aspace = \<lparr>as_id = asid, as_mappings = g_tree_new_full, device_list = []\<rparr>
           in (aspace, s\<lparr>address_spaces := (address_spaces s)(asid \<mapsto> aspace)\<rparr>)))"

definition virtio_iommu_attach_B ::
  "VirtIOIOMMU_B \<Rightarrow> virtio_iommu_req_attach_B \<Rightarrow> int \<times> VirtIOIOMMU_B" where
  "virtio_iommu_attach_B s req =
     (let asid = attach_address_space req;
          devid = attach_device req;
          reserved = attach_reserved req
      in if reserved \<noteq> 0 then (VIRTIO_IOMMU_S_INVAL, s)
         else
           (let (dev, s1) = virtio_iommu_get_dev s devid;
                s2 = (case dev_as dev of
                        Some old \<Rightarrow> virtio_iommu_detach_dev_from_as s1 dev old
                      | None \<Rightarrow> s1);
                (aspace, s3) = virtio_iommu_get_as s2 asid;
                aspace' = aspace\<lparr>device_list := devid # device_list aspace,
                                as_mappings := g_tree_ref (as_mappings aspace)\<rparr>;
                dev' = dev\<lparr>dev_as := Some asid\<rparr>
            in (VIRTIO_IOMMU_S_OK,
                s3\<lparr>address_spaces := (address_spaces s3)(asid \<mapsto> aspace'),
                   devices := (devices s3)(devid \<mapsto> dev'),
                   notified := foreach_node_tree virtio_iommu_mapping_map devid
                                 (as_mappings aspace') (notifiers_list s3) (notified s3)\<rparr>)))"


text \<open>
  The nested \<^verbatim>\<open>QLIST_FOREACH\<close> over notifier nodes and the devices of an address space,
  as in \<^verbatim>\<open>virtio_iommu_map\<close> and \<^verbatim>\<open>virtio_iommu_remove_mapping\<close>: one notification per
  pair of a node and a device that match.
\<close>

definition notify_attached ::
  "IOMMUDevice list \<Rightarrow> u32 list \<Rightarrow> (IOMMUDevice \<Rightarrow> IOMMUDevice \<times> IOMMUTLBEntry)
     \<Rightarrow> (IOMMUDevice \<times> IOMMUTLBEntry) list" where
  "notify_attached nodes devs f =
     concat (map (\<lambda>node. concat (map (\<lambda>d. if node_matches d node then [f node] else []) devs))
                 nodes)"

definition virtio_iommu_map_B ::
  "VirtIOIOMMU_B \<Rightarrow> virtio_iommu_req_map_B \<Rightarrow> int \<times> VirtIOIOMMU_B" where
  "virtio_iommu_map_B s req =
     (let asid = map_address_space req;
          phys = map_phys_addr req;
          virt = map_virt_addr req;
          sz = map_size req;
          interval = \<lparr>low = virt, high = virt + sz - 1\<rparr>
      in case address_spaces s asid of
           None \<Rightarrow> (VIRTIO_IOMMU_S_NOENT, s)
         | Some aspace \<Rightarrow>
             (case g_tree_lookup interval_cmp_B (as_mappings aspace) interval of
                Some mapping \<Rightarrow> (VIRTIO_IOMMU_S_INVAL, s)
              | None \<Rightarrow>
                  (let mapping = \<lparr>virt_addr = virt, phys_addr = phys, msize = sz,
                                  flags = map_flags req\<rparr>
                   in (VIRTIO_IOMMU_S_OK,
                       s\<lparr>address_spaces := (address_spaces s)(asid \<mapsto>
                            aspace\<lparr>as_mappings :=
                              g_tree_insert interval_cmp_B (as_mappings aspace) interval mapping\<rparr>),
                         notified := notified s @
                            notify_attached (notifiers_list s) (device_list aspace)
                              (\<lambda>node. virtio_iommu_notify_map node virt phys sz)\<rparr>))))"

definition virtio_iommu_remove_mapping ::
  "VirtIOIOMMU_B \<Rightarrow> u32 \<Rightarrow> viommu_interval \<Rightarrow> VirtIOIOMMU_B" where
  "virtio_iommu_remove_mapping s asid interval =
     (case address_spaces s asid of
        None \<Rightarrow> s
      | Some aspace \<Rightarrow>
          s\<lparr>address_spaces := (address_spaces s)(asid \<mapsto>
               aspace\<lparr>as_mappings := g_tree_remove interval_cmp_B (as_mappings aspace) interval\<rparr>),
            notified := notified s @
               notify_attached (notifiers_list s) (device_list aspace)
                 (\<lambda>node. virtio_iommu_notify_unmap node (low interval) 0
                            (high interval - low interval + 1))\<rparr>)"

definition as_lookup :: "VirtIOIOMMU_B \<Rightarrow> u32 \<Rightarrow> viommu_interval \<Rightarrow> viommu_mapping_B option" where
  "as_lookup s asid interval =
     (case address_spaces s asid of
        None \<Rightarrow> None
      | Some aspace \<Rightarrow> g_tree_lookup interval_cmp_B (as_mappings aspace) interval)"

text \<open>
  The body of the \<^verbatim>\<open>while (mapping)\<close> loop of \<^verbatim>\<open>virtio_iommu_unmap\<close> up to the
  \<^verbatim>\<open>break\<close>: the three cases that remove the mapping found, with the request interval
  each leaves, or \<open>None\<close> for the \<^verbatim>\<open>break\<close>. \<open>sz\<close> is the \<^verbatim>\<open>size\<close> of the request, which
  the loop never updates.
\<close>

definition unmap_step_B ::
  "VirtIOIOMMU_B \<Rightarrow> u32 \<Rightarrow> u64 \<Rightarrow> viommu_interval \<Rightarrow> viommu_mapping_B
     \<Rightarrow> (VirtIOIOMMU_B \<times> viommu_interval) option" where
  "unmap_step_B s asid sz interval mapping =
     (let low' = virt_addr mapping;
          high' = virt_addr mapping + msize mapping - 1;
          current = \<lparr>low = low', high = high'\<rparr>
      in if low' = low interval \<and> sz \<ge> msize mapping then
           Some (virtio_iommu_remove_mapping s asid current, interval\<lparr>low := high' + 1\<rparr>)
         else if high' = high interval \<and> sz \<ge> msize mapping then
           Some (virtio_iommu_remove_mapping s asid current, interval\<lparr>high := low' - 1\<rparr>)
         else if low' > low interval \<and> high' < high interval then
           Some (virtio_iommu_remove_mapping s asid current, interval)
         else None)"

text \<open>
  The loop itself and the code after it: a \<^verbatim>\<open>break\<close> leaves the loop with a mapping
  and gives \<open>INVAL\<close>. \<open>None\<close> stands for a loop that never ends.
\<close>

partial_function (option) unmap_loop_B ::
  "VirtIOIOMMU_B \<Rightarrow> u32 \<Rightarrow> u64 \<Rightarrow> viommu_interval \<Rightarrow> viommu_mapping_B option
     \<Rightarrow> (int \<times> VirtIOIOMMU_B) option" where
  "unmap_loop_B s asid sz interval mapping =
     (case mapping of
        None \<Rightarrow> Some (VIRTIO_IOMMU_S_OK, s)
      | Some m \<Rightarrow>
          (case unmap_step_B s asid sz interval m of
             None \<Rightarrow> Some (VIRTIO_IOMMU_S_INVAL, s)
           | Some (s', interval') \<Rightarrow>
               if low interval' \<ge> high interval' then Some (VIRTIO_IOMMU_S_OK, s')
               else unmap_loop_B s' asid sz interval' (as_lookup s' asid interval')))"

declare unmap_loop_B.simps [code]

definition virtio_iommu_unmap_B ::
  "VirtIOIOMMU_B \<Rightarrow> virtio_iommu_req_unmap_B \<Rightarrow> (int \<times> VirtIOIOMMU_B) option" where
  "virtio_iommu_unmap_B s req =
     (let asid = unmap_address_space req;
          virt = unmap_virt_addr req;
          sz = unmap_size req
      in case address_spaces s asid of
           None \<Rightarrow> Some (VIRTIO_IOMMU_S_NOENT, s)
         | Some aspace \<Rightarrow>
             unmap_loop_B s asid sz \<lparr>low = virt, high = virt + sz - 1\<rparr>
               (as_lookup s asid \<lparr>low = virt, high = virt + sz - 1\<rparr>))"

definition virtio_iommu_translate_B ::
  "VirtIOIOMMU_B \<Rightarrow> IOMMUDevice \<Rightarrow> u64 \<Rightarrow> u32 \<Rightarrow> IOMMUTLBEntry" where
  "virtio_iommu_translate_B s sdev addr flag =
     (let interval = \<lparr>low = addr, high = addr + 1\<rparr>;
          entry = \<lparr>iova = addr, translated_addr = addr,
                   addr_mask = translate_addr_mask (page_size_mask_B s), perm = flag\<rparr>;
          sid = virtio_iommu_get_sid sdev
      in case devices s (ucast sid) of
           None \<Rightarrow> entry
         | Some dev \<Rightarrow>
             (case dev_as dev of
                None \<Rightarrow> entry
              | Some asid \<Rightarrow>
                  (case as_lookup s asid interval of
                     None \<Rightarrow> entry
                   | Some mapping \<Rightarrow>
                       if (flag AND IOMMU_RO \<noteq> 0 \<and>
                             flags mapping AND VIRTIO_IOMMU_MAP_F_READ = 0) \<or>
                          (flag AND IOMMU_WO \<noteq> 0 \<and>
                             flags mapping AND VIRTIO_IOMMU_MAP_F_WRITE = 0)
                       then entry\<lparr>perm := IOMMU_NONE\<rparr>
                       else entry\<lparr>translated_addr :=
                                    addr - virt_addr mapping + phys_addr mapping\<rparr>)))"

definition init_B :: "u64 \<Rightarrow> VirtIOIOMMU_B" where
  "init_B psm =
     \<lparr>address_spaces = Map.empty, devices = Map.empty, notifiers_list = [],
      page_size_mask_B = psm, notified = []\<rparr>"

text \<open>
  \<^verbatim>\<open>virtio_iommu_notify_flag_changed\<close>: a memory region whose notifier flags were
  \<^verbatim>\<open>IOMMU_NOTIFIER_NONE\<close> (0) gets a node at the head of the list; when the new flags are
  \<^verbatim>\<open>IOMMU_NOTIFIER_NONE\<close> the first node of that region is removed.
\<close>

definition virtio_iommu_notify_flag_changed ::
  "VirtIOIOMMU_B \<Rightarrow> IOMMUDevice \<Rightarrow> nat \<Rightarrow> nat \<Rightarrow> VirtIOIOMMU_B" where
  "virtio_iommu_notify_flag_changed s sdev old new =
     (if old = 0 then s\<lparr>notifiers_list := sdev # notifiers_list s\<rparr>
      else if sdev \<in> set (notifiers_list s) \<and> new = 0
      then s\<lparr>notifiers_list := remove1 sdev (notifiers_list s)\<rparr>
      else s)"

text \<open>
  \<^verbatim>\<open>virtio_iommu_find_add_as\<close>, which the PCI layer calls for the device at \<open>devfn\<close> on
  a bus: the first call for a device creates its \<^verbatim>\<open>IOMMUDevice\<close> and memory region and
  registers the device under \<^verbatim>\<open>PCI_BUILD_BDF(pci_bus_num(bus), devfn)\<close>; a later call
  finds the \<^verbatim>\<open>IOMMUDevice\<close> and changes nothing, as does
  \<^verbatim>\<open>virtio_iommu_get_dev\<close> for a device that is registered, so the table of buses is
  left out of the state.
\<close>

definition virtio_iommu_find_add_as ::
  "VirtIOIOMMU_B \<Rightarrow> int \<Rightarrow> int \<Rightarrow> IOMMUDevice \<times> VirtIOIOMMU_B" where
  "virtio_iommu_find_add_as s bus devfn' =
     (\<lparr>bus_num = bus, devfn = devfn'\<rparr>,
      snd (virtio_iommu_get_dev s (word_of_int (push_bit 8 bus OR devfn'))))"




subsubsection \<open>PROBE\<close>

text \<open>
  The property buffer: \<open>filled\<close> is the write offset, \<open>props\<close> the property records
  written so far, each with the offset it was written at and its \<^verbatim>\<open>type\<close> and
  \<^verbatim>\<open>length\<close> fields and, for a reserved region, its payload.
\<close>

record viommu_property_buffer =
  buf_dev :: u32
  filled :: nat
  props :: "(nat \<times> int \<times> nat \<times> virtio_iommu_probe_resv_mem option) list"
  error :: bool

definition virtio_iommu_fill_resv_mem_prop ::
  "nat \<Rightarrow> viommu_interval \<Rightarrow> virtio_iommu_probe_resv_mem \<Rightarrow> viommu_property_buffer
     \<Rightarrow> bool \<times> viommu_property_buffer" where
  "virtio_iommu_fill_resv_mem_prop resv_sz key resv bufstate =
     (let total_size = resv_sz + 4
      in if filled bufstate \<ge> VIOMMU_PROBE_SIZE then (True, bufstate\<lparr>error := True\<rparr>)
         else (False,
               bufstate\<lparr>props := props bufstate @
                           [(filled bufstate, VIRTIO_IOMMU_PROBE_T_RESV_MEM, resv_sz, Some resv)],
                        filled := filled bufstate + total_size\<rparr>))"

definition virtio_iommu_fill_none_prop :: "viommu_property_buffer \<Rightarrow> int \<times> viommu_property_buffer" where
  "virtio_iommu_fill_none_prop bufstate =
     (0, bufstate\<lparr>props := props bufstate @
                     [(filled bufstate, VIRTIO_IOMMU_PROBE_T_NONE, 0, None)],
                  filled := filled bufstate + 4\<rparr>)"

definition virtio_iommu_fill_property ::
  "nat \<Rightarrow> viommu_dev \<Rightarrow> int \<Rightarrow> viommu_property_buffer \<Rightarrow> int \<times> viommu_property_buffer" where
  "virtio_iommu_fill_property resv_sz dev ptype bufstate =
     (if filled bufstate + 4 \<ge> VIOMMU_PROBE_SIZE then (- ENOSPC, bufstate\<lparr>error := True\<rparr>)
      else if ptype = VIRTIO_IOMMU_PROBE_T_NONE then virtio_iommu_fill_none_prop bufstate
      else if ptype = VIRTIO_IOMMU_PROBE_T_RESV_MEM then
        (let bufstate' = g_tree_foreach (reserved_regions dev)
                           (virtio_iommu_fill_resv_mem_prop resv_sz) bufstate
         in (if \<not> error bufstate' then 0 else - ENOSPC, bufstate'))
      else (- ENOENT, bufstate))"

text \<open>
  The \<^verbatim>\<open>while ((type = ctz32(prop_types)) != 32)\<close> loop of \<^verbatim>\<open>virtio_iommu_probe\<close>;
  \<open>prop_types\<close> is an \<^verbatim>\<open>int16_t\<close>. Each round clears the lowest set bit, so \<open>n\<close>, the
  number of bits of \<open>prop_types\<close>, bounds the rounds.
\<close>

fun probe_loop ::
  "nat \<Rightarrow> nat \<Rightarrow> viommu_dev \<Rightarrow> 16 word \<Rightarrow> viommu_property_buffer \<Rightarrow> viommu_property_buffer" where
  "probe_loop 0 resv_sz dev prop_types bufstate = bufstate"
| "probe_loop (Suc n) resv_sz dev prop_types bufstate =
     (let ptype = ctz32 (scast prop_types)
      in if ptype = 32 then bufstate
         else (case virtio_iommu_fill_property resv_sz dev (push_bit ptype 1) bufstate of
                 (ret, bufstate') \<Rightarrow>
                   if ret \<noteq> 0 then bufstate'
                   else probe_loop n resv_sz dev (prop_types AND NOT (push_bit ptype 1)) bufstate'))"

text \<open>
  \<^verbatim>\<open>virtio_iommu_probe\<close> returns a status and leaves the properties in the buffer; the
  model returns the buffer state too.
\<close>

definition virtio_iommu_probe ::
  "nat \<Rightarrow> VirtIOIOMMU_B \<Rightarrow> virtio_iommu_req_probe \<Rightarrow> int \<times> viommu_property_buffer option" where
  "virtio_iommu_probe resv_sz s req =
     (let devid = probe_device req
      in case devices s devid of
           None \<Rightarrow> (- EINVAL, None)
         | Some dev \<Rightarrow>
             (let bufstate = \<lparr>buf_dev = devid, filled = 0, props = [], error = False\<rparr>;
                  bufstate1 = probe_loop 16 resv_sz dev (word_of_int SUPPORTED_PROBE_PROPERTIES)
                                bufstate;
                  (ret, bufstate2) = virtio_iommu_fill_property resv_sz dev
                                       VIRTIO_IOMMU_PROBE_T_NONE bufstate1
              in (VIRTIO_IOMMU_S_OK, Some bufstate2)))"

subsection \<open>The interval map as the specification describes it\<close>

text \<open>
  The specification calls the interval map an ordered set of non-overlapping ranges. For
  a tree this is the search-tree property with respect to the comparator: every key is a
  range (\<open>low \<le> high\<close>), the keys of the left subtree end before the key of the node
  begins and the keys of the right subtree begin after it ends, where "before" is \<open><\<close>
  for the comparator of variant A and \<open>\<le>\<close> for the comparator of variant B.
\<close>

fun sorted_tree_A :: "(viommu_interval \<times> 'v) tree \<Rightarrow> bool" where
  "sorted_tree_A Leaf = True"
| "sorted_tree_A (Node l (k, v) r) =
     (low k \<le> high k \<and>
      (\<forall>(k', v') \<in> set_tree l. high k' < low k) \<and>
      (\<forall>(k', v') \<in> set_tree r. high k < low k') \<and>
      sorted_tree_A l \<and> sorted_tree_A r)"

fun sorted_tree_B :: "(viommu_interval \<times> 'v) tree \<Rightarrow> bool" where
  "sorted_tree_B Leaf = True"
| "sorted_tree_B (Node l (k, v) r) =
     (low k \<le> high k \<and>
      (\<forall>(k', v') \<in> set_tree l. high k' \<le> low k) \<and>
      (\<forall>(k', v') \<in> set_tree r. high k \<le> low k') \<and>
      sorted_tree_B l \<and> sorted_tree_B r)"

text \<open>
  In variant B a mapping repeats its range in the value; \<^verbatim>\<open>virtio_iommu_map\<close> stores
  every mapping under the key \<open>[virt_addr, virt_addr + size - 1]\<close>.
\<close>

definition keyed_B :: "(viommu_interval \<times> viommu_mapping_B) tree \<Rightarrow> bool" where
  "keyed_B t =
     (\<forall>(k, m) \<in> set_tree t. low k = virt_addr m \<and> high k = virt_addr m + msize m - 1)"

text \<open>
  The permission check of \<^verbatim>\<open>virtio_iommu_translate\<close>: the access mode \<open>flag\<close> is refused
  by a mapping with the flags \<open>mflags\<close>.
\<close>

definition access_refused :: "u32 \<Rightarrow> u32 \<Rightarrow> bool" where
  "access_refused flag mflags =
     ((flag AND IOMMU_RO \<noteq> 0 \<and> mflags AND VIRTIO_IOMMU_MAP_F_READ = 0) \<or>
      (flag AND IOMMU_WO \<noteq> 0 \<and> mflags AND VIRTIO_IOMMU_MAP_F_WRITE = 0))"

text \<open>An address lies in the range of a key, both ends included.\<close>

definition addr_in :: "u64 \<Rightarrow> viommu_interval \<Rightarrow> bool" where
  "addr_in a k = (low k \<le> a \<and> a \<le> high k)"

text \<open>The mappings of a domain or address space in sorted order, for stating results.\<close>

definition mappings_of_A ::
  "VirtIOIOMMU_A \<Rightarrow> u32 \<Rightarrow> (viommu_interval \<times> viommu_mapping_A) list" where
  "mappings_of_A s d =
     (case domains s d of None \<Rightarrow> [] | Some dm \<Rightarrow> g_tree_entries (domain_mappings dm))"

definition mappings_of_B ::
  "VirtIOIOMMU_B \<Rightarrow> u32 \<Rightarrow> (viommu_interval \<times> viommu_mapping_B) list" where
  "mappings_of_B s asid =
     (case address_spaces s asid of None \<Rightarrow> [] | Some a \<Rightarrow> g_tree_entries (as_mappings a))"

text \<open>
  The faults of a translation request as section 4.5 of the specification lists them,
  decided on the state and not by the search the code makes: the device (endpoint) is
  not in the registry; it is attached to no domain; no mapping of its domain covers the
  address; the mapping that covers the address (the first one in sorted order, which is
  the only one when the mappings do not overlap) refuses the access mode.
\<close>

datatype fault = UnknownDevice | Unattached | NoMapping | PermissionDenied

definition fault_A :: "VirtIOIOMMU_A \<Rightarrow> IOMMUDevice \<Rightarrow> u64 \<Rightarrow> u32 \<Rightarrow> fault option" where
  "fault_A s sdev addr flag =
     (case endpoints s (ucast (virtio_iommu_get_sid sdev)) of
        None \<Rightarrow> Some UnknownDevice
      | Some ep \<Rightarrow>
          (case ep_domain ep of
             None \<Rightarrow> Some Unattached
           | Some d \<Rightarrow>
               (case filter (\<lambda>(k, m). addr_in addr k) (mappings_of_A s d) of
                  [] \<Rightarrow> Some NoMapping
                | (k, m) # rest \<Rightarrow>
                    if access_refused flag (flags_A m) then Some PermissionDenied else None)))"

definition fault_B :: "VirtIOIOMMU_B \<Rightarrow> IOMMUDevice \<Rightarrow> u64 \<Rightarrow> u32 \<Rightarrow> fault option" where
  "fault_B s sdev addr flag =
     (case devices s (ucast (virtio_iommu_get_sid sdev)) of
        None \<Rightarrow> Some UnknownDevice
      | Some dev \<Rightarrow>
          (case dev_as dev of
             None \<Rightarrow> Some Unattached
           | Some asid \<Rightarrow>
               (case filter (\<lambda>(k, m). addr_in addr k) (mappings_of_B s asid) of
                  [] \<Rightarrow> Some NoMapping
                | (k, m) # rest \<Rightarrow>
                    if access_refused flag (flags m) then Some PermissionDenied else None)))"

text \<open>
  A notifier node is registered for a device when its memory region is the device's:
  the stream identifier of the region, which \<^verbatim>\<open>virtio_iommu_translate\<close> uses to find the
  device of a region, is the device identifier.
\<close>

definition notifier_of :: "u32 \<Rightarrow> IOMMUDevice \<Rightarrow> bool" where
  "notifier_of devid node = (ucast (virtio_iommu_get_sid node) = devid)"

text \<open>
  The notifications that replay the mappings of an interval map to the notifier nodes
  selected by \<open>sel\<close>: for every selected node, in list order, one notification per
  mapping, in sorted order.
\<close>

definition replayed_unmaps ::
  "(IOMMUDevice \<Rightarrow> bool) \<Rightarrow> (viommu_interval, viommu_mapping_B) GTree \<Rightarrow> IOMMUDevice list
     \<Rightarrow> (IOMMUDevice \<times> IOMMUTLBEntry) list" where
  "replayed_unmaps sel t nodes =
     concat (map (\<lambda>node. map (\<lambda>(k, m). virtio_iommu_notify_unmap node (virt_addr m) 0 (msize m))
                              (g_tree_entries t))
                 (filter sel nodes))"

definition replayed_maps ::
  "(IOMMUDevice \<Rightarrow> bool) \<Rightarrow> (viommu_interval, viommu_mapping_B) GTree \<Rightarrow> IOMMUDevice list
     \<Rightarrow> (IOMMUDevice \<times> IOMMUTLBEntry) list" where
  "replayed_maps sel t nodes =
     concat (map (\<lambda>node. map (\<lambda>(k, m). virtio_iommu_notify_map node (virt_addr m) (phys_addr m)
                                          (msize m))
                              (g_tree_entries t))
                 (filter sel nodes))"

text \<open>
  An address lies in the virtual range \<open>[virt_addr, virt_addr + size)\<close> of a mapping of
  variant B.
\<close>

definition mapping_covers :: "viommu_mapping_B \<Rightarrow> u64 \<Rightarrow> bool" where
  "mapping_covers m a = (virt_addr m \<le> a \<and> a - virt_addr m < msize m)"

text \<open>What a probe left in the buffer: bytes filled, error flag, number of properties.\<close>

definition buffer_summary :: "viommu_property_buffer option \<Rightarrow> (nat \<times> bool \<times> nat) option" where
  "buffer_summary r = map_option (\<lambda>b. (filled b, error b, length (props b))) r"

subsection \<open>Runs of commands in variant A\<close>

text \<open>
  A run of commands each of which returns \<open>OK\<close>; \<open>None\<close> when a command fails or does
  not return.
\<close>

datatype command_A =
    ATTACH_A virtio_iommu_req_attach_A
  | DETACH_A virtio_iommu_req_detach_A
  | MAP_A virtio_iommu_req_map_A
  | UNMAP_A virtio_iommu_req_unmap_A

fun run_A :: "VirtIOIOMMU_A \<Rightarrow> command_A list \<Rightarrow> VirtIOIOMMU_A option" where
  "run_A s [] = Some s"
| "run_A s (ATTACH_A req # cs) =
     (case virtio_iommu_attach_A s req of
        (ret, s') \<Rightarrow> if ret = VIRTIO_IOMMU_S_OK then run_A s' cs else None)"
| "run_A s (DETACH_A req # cs) =
     (case virtio_iommu_detach_A s req of
        (ret, s') \<Rightarrow> if ret = VIRTIO_IOMMU_S_OK then run_A s' cs else None)"
| "run_A s (MAP_A req # cs) =
     (case virtio_iommu_map_A s req of
        (ret, s') \<Rightarrow> if ret = VIRTIO_IOMMU_S_OK then run_A s' cs else None)"
| "run_A s (UNMAP_A req # cs) =
     (case virtio_iommu_unmap_A s req of
        None \<Rightarrow> None
      | Some (ret, s') \<Rightarrow> if ret = VIRTIO_IOMMU_S_OK then run_A s' cs else None)"

text \<open>Every domain's interval map is a search tree of ranges.\<close>

definition all_sorted_A :: "VirtIOIOMMU_A \<Rightarrow> bool" where
  "all_sorted_A s = (\<forall>d dm. domains s d = Some dm \<longrightarrow> sorted_tree_A (root (domain_mappings dm)))"

text \<open>A MAP request whose \<open>virt_start\<close> does not exceed its \<open>virt_end\<close>.\<close>

fun range_request_A :: "command_A \<Rightarrow> bool" where
  "range_request_A (MAP_A req) = (map_virt_start_A req \<le> map_virt_end_A req)"
| "range_request_A c = True"

subsection \<open>Runs of variant B\<close>




text \<open>
  The number of bytes the properties of a device take when serialized: one record of
  \<open>resv_sz + 4\<close> bytes for every reserved region and the terminating record of 4 bytes.
\<close>

definition property_bytes :: "nat \<Rightarrow> viommu_dev \<Rightarrow> nat" where
  "property_bytes resv_sz dev = size (root (reserved_regions dev)) * (resv_sz + 4) + 4"

subsection \<open>Example runs\<close>

text \<open>
  States reached by commands from the state after realize, with page size mask
  \<open>0xfffffffffffff000\<close> and, in variant A, no feature acknowledged (bypass disabled).
\<close>

definition ex_A_init :: VirtIOIOMMU_A where
  "ex_A_init = init_A 0 0xfffffffffffff000"

definition ex_A_attached :: VirtIOIOMMU_A where
  "ex_A_attached =
     snd (virtio_iommu_attach_A ex_A_init \<lparr>attach_domain_A = 1, attach_endpoint_A = 7\<rparr>)"

text \<open>Domain 1 with the mappings \<open>[0x3000, 0x3fff]\<close> and \<open>[0x1000, 0x1fff]\<close>, mapped in this order.\<close>

definition ex_A_two :: VirtIOIOMMU_A where
  "ex_A_two =
     snd (virtio_iommu_map_A
            (snd (virtio_iommu_map_A ex_A_attached
                    \<lparr>map_domain_A = 1, map_phys_start_A = 0x8000, map_virt_start_A = 0x3000,
                     map_virt_end_A = 0x3fff, map_flags_A = 3\<rparr>))
            \<lparr>map_domain_A = 1, map_phys_start_A = 0x5000, map_virt_start_A = 0x1000,
             map_virt_end_A = 0x1fff, map_flags_A = 3\<rparr>)"

definition ex_B_init :: VirtIOIOMMU_B where
  "ex_B_init = init_B 0xfffffffffffff000"

definition ex_A_mapped :: VirtIOIOMMU_A where
  "ex_A_mapped =
     snd (virtio_iommu_map_A ex_A_attached
            \<lparr>map_domain_A = 1, map_phys_start_A = 0x5000, map_virt_start_A = 0x1000,
             map_virt_end_A = 0x1fff, map_flags_A = 3\<rparr>)"

text \<open>Endpoint 7 attached to domain 1 (one mapping), endpoint 8 to domain 2 (one mapping).\<close>

definition ex_A_two_domains :: VirtIOIOMMU_A where
  "ex_A_two_domains =
     snd (virtio_iommu_map_A
            (snd (virtio_iommu_attach_A ex_A_mapped \<lparr>attach_domain_A = 2, attach_endpoint_A = 8\<rparr>))
            \<lparr>map_domain_A = 2, map_phys_start_A = 0x9000, map_virt_start_A = 0x4000,
             map_virt_end_A = 0x5fff, map_flags_A = 1\<rparr>)"

definition ex_B_attached :: VirtIOIOMMU_B where
  "ex_B_attached =
     snd (virtio_iommu_attach_B ex_B_init
            \<lparr>attach_address_space = 1, attach_device = 7, attach_reserved = 0\<rparr>)"

definition ex_B_mapped :: VirtIOIOMMU_B where
  "ex_B_mapped =
     snd (virtio_iommu_map_B ex_B_attached
            \<lparr>map_address_space = 1, map_phys_addr = 0x5000, map_virt_addr = 0x1000,
             map_size = 0x1000, map_flags = 3\<rparr>)"

text \<open>
  A notifier on the memory region of bus 0, function 7; device 7 attached to address
  space 1, device 8 to address space 2, one mapping in each.
\<close>

definition ex_B_two_as :: VirtIOIOMMU_B where
  "ex_B_two_as =
     snd (virtio_iommu_map_B
       (snd (virtio_iommu_attach_B
         (snd (virtio_iommu_map_B
           (snd (virtio_iommu_attach_B
             (virtio_iommu_notify_flag_changed ex_B_init \<lparr>bus_num = 0, devfn = 7\<rparr> 0 3)
             \<lparr>attach_address_space = 1, attach_device = 7, attach_reserved = 0\<rparr>))
           \<lparr>map_address_space = 1, map_phys_addr = 0x5000, map_virt_addr = 0x1000,
            map_size = 0x1000, map_flags = 3\<rparr>))
         \<lparr>attach_address_space = 2, attach_device = 8, attach_reserved = 0\<rparr>))
       \<lparr>map_address_space = 2, map_phys_addr = 0x9000, map_virt_addr = 0x4000,
        map_size = 0x2000, map_flags = 1\<rparr>)"

text \<open>Device (endpoint) 7 attached again, now to the other address space (domain).\<close>

definition ex_A_reattached :: VirtIOIOMMU_A where
  "ex_A_reattached =
     snd (virtio_iommu_attach_A ex_A_two_domains \<lparr>attach_domain_A = 2, attach_endpoint_A = 7\<rparr>)"

definition ex_B_reattached :: VirtIOIOMMU_B where
  "ex_B_reattached =
     snd (virtio_iommu_attach_B ex_B_two_as
            \<lparr>attach_address_space = 2, attach_device = 7, attach_reserved = 0\<rparr>)"

text \<open>
  Domain 1 with the adjacent mappings \<open>[0x2000, 0x2fff]\<close> and \<open>[0x1000, 0x1fff]\<close>, mapped
  in this order.
\<close>

definition ex_A_adjacent :: VirtIOIOMMU_A where
  "ex_A_adjacent =
     snd (virtio_iommu_map_A
            (snd (virtio_iommu_map_A ex_A_attached
                    \<lparr>map_domain_A = 1, map_phys_start_A = 0x9000, map_virt_start_A = 0x2000,
                     map_virt_end_A = 0x2fff, map_flags_A = 3\<rparr>))
            \<lparr>map_domain_A = 1, map_phys_start_A = 0x5000, map_virt_start_A = 0x1000,
             map_virt_end_A = 0x1fff, map_flags_A = 3\<rparr>)"

text \<open>
  The device at function 7 of bus 1, whose identifier is \<open>0x107\<close>: it is registered by the
  PCI layer, a notifier is enabled on its memory region, the guest attaches it to address
  space 2, maps \<open>[0x4000, 0x5fff]\<close> there, and attaches it to address space 1.
\<close>

definition ex_B_bus1 :: VirtIOIOMMU_B where
  "ex_B_bus1 =
     snd (virtio_iommu_attach_B
       (snd (virtio_iommu_map_B
         (snd (virtio_iommu_attach_B
           (virtio_iommu_notify_flag_changed
              (snd (virtio_iommu_find_add_as ex_B_init 1 7)) \<lparr>bus_num = 1, devfn = 7\<rparr> 0 3)
           \<lparr>attach_address_space = 2, attach_device = 0x107, attach_reserved = 0\<rparr>))
         \<lparr>map_address_space = 2, map_phys_addr = 0x9000, map_virt_addr = 0x4000,
          map_size = 0x2000, map_flags = 1\<rparr>))
       \<lparr>attach_address_space = 1, attach_device = 0x107, attach_reserved = 0\<rparr>)"

text \<open>Address space 1 with one mapping of the first page; with one mapping of one byte.\<close>

definition ex_B_first_page :: VirtIOIOMMU_B where
  "ex_B_first_page =
     snd (virtio_iommu_map_B ex_B_attached
            \<lparr>map_address_space = 1, map_phys_addr = 0x5000, map_virt_addr = 0,
             map_size = 0x1000, map_flags = 3\<rparr>)"

definition ex_B_byte :: VirtIOIOMMU_B where
  "ex_B_byte =
     snd (virtio_iommu_map_B ex_B_attached
            \<lparr>map_address_space = 1, map_phys_addr = 0x5000, map_virt_addr = 0x1000,
             map_size = 1, map_flags = 3\<rparr>)"

text \<open>Address space 1 with a mapping of size 0 at address 10, then one of \<open>[9, 20]\<close>.\<close>

definition ex_B_empty_first :: VirtIOIOMMU_B where
  "ex_B_empty_first =
     snd (virtio_iommu_map_B
       (snd (virtio_iommu_map_B ex_B_attached
          \<lparr>map_address_space = 1, map_phys_addr = 0x5000, map_virt_addr = 10,
           map_size = 0, map_flags = 3\<rparr>))
       \<lparr>map_address_space = 1, map_phys_addr = 0x6000, map_virt_addr = 9,
        map_size = 12, map_flags = 3\<rparr>)"

text \<open>
  Device 7, known and unattached, with \<open>n\<close> reserved regions of 64 KiB each. No function
  of the sources adds reserved regions; the state is built directly.
\<close>

fun resv_spine :: "nat \<Rightarrow> u64 \<Rightarrow> (viommu_interval \<times> virtio_iommu_probe_resv_mem) tree" where
  "resv_spine 0 base = Leaf"
| "resv_spine (Suc n) base =
     Node Leaf (\<lparr>low = base, high = base + 0xffff\<rparr>,
       \<lparr>resv_subtype = 0, resv_addr = base, resv_size = 0x10000, resv_flags = 0\<rparr>) (resv_spine n (base + 0x10000))"

definition ex_B_resv :: "nat \<Rightarrow> VirtIOIOMMU_B" where
  "ex_B_resv n =
     ex_B_init\<lparr>devices := (devices ex_B_init)
       (7 \<mapsto> \<lparr>dev_id = 7, dev_as = None,
                reserved_regions = \<lparr>root = resv_spine n 0, ref_count = 1\<rparr>\<rparr>)\<rparr>"

text \<open>
  Domain 1 after a MAP request with \<open>virt_start = 10\<close> above \<open>virt_end = 5\<close>, and after a
  second one for \<open>[6, 20]\<close>.
\<close>

definition ex_A_inverted :: VirtIOIOMMU_A where
  "ex_A_inverted =
     snd (virtio_iommu_map_A ex_A_attached
            \<lparr>map_domain_A = 1, map_phys_start_A = 0x5000, map_virt_start_A = 10,
             map_virt_end_A = 5, map_flags_A = 3\<rparr>)"

definition ex_A_inverted_two :: VirtIOIOMMU_A where
  "ex_A_inverted_two =
     snd (virtio_iommu_map_A ex_A_inverted
            \<lparr>map_domain_A = 1, map_phys_start_A = 0x6000, map_virt_start_A = 6,
             map_virt_end_A = 20, map_flags_A = 3\<rparr>)"

section \<open>Results\<close>

subsection \<open>Auxiliary facts\<close>

lemma get_dev_address_spaces:
  "address_spaces (snd (virtio_iommu_get_dev s devid)) = address_spaces s"
  by (simp add: virtio_iommu_get_dev_def Let_def split: option.splits)

lemma detach_dev_keeps_absent:
  "address_spaces s asid = None \<Longrightarrow>
   address_spaces (virtio_iommu_detach_dev_from_as s dev old) asid = None"
  by (auto simp: virtio_iommu_detach_dev_from_as_def split: option.splits)

lemma find_node_None:
  "\<forall>(k, v) \<in> set_tree t. cmp q k \<noteq> 0 \<Longrightarrow> g_tree_find_node cmp t q = None"
  by (induction t) auto

lemma find_node_Some:
  "g_tree_find_node cmp t q = Some (k, v) \<Longrightarrow> (k, v) \<in> set_tree t \<and> cmp q k = 0"
  by (induction t) (auto split: if_splits)

text \<open>
  For ranges, the comparator of variant A returns 0 exactly when the two ranges share an
  address; the comparator of variant B returns 0 only when they do.
\<close>

lemma interval_cmp_A_zero_iff:
  "low a \<le> high a \<Longrightarrow> low b \<le> high b \<Longrightarrow>
   (interval_cmp_A a b = 0) = ({low a..high a} \<inter> {low b..high b} \<noteq> {})"
  by (auto simp: interval_cmp_A_def)

lemma interval_cmp_B_disjoint:
  "low a \<le> high a \<Longrightarrow> low b \<le> high b \<Longrightarrow> {low a..high a} \<inter> {low b..high b} = {} \<Longrightarrow>
   interval_cmp_B a b \<noteq> 0"
  by (auto simp: interval_cmp_B_def)

text \<open>
  In a search tree the search for a range lying inside a stored key ends at that key.
\<close>

lemma find_node_sorted_A:
  "sorted_tree_A t \<Longrightarrow> (k0, v0) \<in> set_tree t \<Longrightarrow>
   low k0 \<le> low q \<Longrightarrow> low q \<le> high q \<Longrightarrow> high q \<le> high k0 \<Longrightarrow>
   g_tree_find_node interval_cmp_A t q = Some (k0, v0)"
proof (induction t)
  case Leaf
  then show ?case by simp
next
  case (Node l a r)
  obtain k v where a: "a = (k, v)" by (cases a)
  from Node.prems(2) consider "(k0, v0) = (k, v)" | "(k0, v0) \<in> set_tree l" | "(k0, v0) \<in> set_tree r"
    using a by auto
  then show ?case
  proof cases
    case 1
    then show ?thesis using Node.prems a by (auto simp: interval_cmp_A_def)
  next
    case 2
    then have "high k0 < low k" using Node.prems(1) a by auto
    then have "interval_cmp_A q k = - 1" using Node.prems by (auto simp: interval_cmp_A_def)
    then show ?thesis using Node.IH(1) Node.prems 2 a by simp
  next
    case 3
    then have "high k < low k0" and "low k \<le> high k" using Node.prems(1) a by auto
    then have "interval_cmp_A q k = 1" using Node.prems by (auto simp: interval_cmp_A_def)
    then show ?thesis using Node.IH(2) Node.prems 3 a by simp
  qed
qed

lemma find_node_sorted_B:
  "sorted_tree_B t \<Longrightarrow> (k0, v0) \<in> set_tree t \<Longrightarrow>
   low k0 \<le> low q \<Longrightarrow> low q \<le> high q \<Longrightarrow> high q \<le> high k0 \<Longrightarrow>
   low q < high k0 \<Longrightarrow> low k0 < high q \<Longrightarrow>
   g_tree_find_node interval_cmp_B t q = Some (k0, v0)"
proof (induction t)
  case Leaf
  then show ?case by simp
next
  case (Node l a r)
  obtain k v where a: "a = (k, v)" by (cases a)
  from Node.prems(2) consider "(k0, v0) = (k, v)" | "(k0, v0) \<in> set_tree l" | "(k0, v0) \<in> set_tree r"
    using a by auto
  then show ?case
  proof cases
    case 1
    then show ?thesis using Node.prems a by (auto simp: interval_cmp_B_def)
  next
    case 2
    then have "high k0 \<le> low k" using Node.prems(1) a by auto
    then have "interval_cmp_B q k = - 1" using Node.prems by (auto simp: interval_cmp_B_def)
    then show ?thesis using Node.IH(1) Node.prems 2 a by simp
  next
    case 3
    then have "high k \<le> low k0" and "low k \<le> high k" using Node.prems(1) a by auto
    then have "interval_cmp_B q k = 1" using Node.prems by (auto simp: interval_cmp_B_def)
    then show ?thesis using Node.IH(2) Node.prems 3 a by simp
  qed
qed

lemma word_succ_le1: "(a :: u64) < b \<Longrightarrow> a + 1 \<le> b"
  by (rule inc_le)

lemma word_succ_le2: "(a :: u64) < b \<Longrightarrow> a < a + 1"
  by (metis (no_types, lifting) add_cancel_left_right inc_i leI nless_le
    olen_add_eqv word_less_1)

text \<open>The example states, evaluated.\<close>

lemma ex_A_two_domain:
  "domains ex_A_two 1 =
     Some \<lparr>domain_id = 1,
           domain_mappings =
             \<lparr>root = Node (Node Leaf (\<lparr>low = 0x1000, high = 0x1fff\<rparr>,
                                      \<lparr>phys_addr_A = 0x5000, flags_A = 3\<rparr>) Leaf)
                           (\<lparr>low = 0x3000, high = 0x3fff\<rparr>, \<lparr>phys_addr_A = 0x8000, flags_A = 3\<rparr>)
                           Leaf,
              ref_count = 2\<rparr>,
           endpoint_list = [7]\<rparr>"
  by code_simp

lemma ex_A_mapped_domain:
  "domains ex_A_mapped 1 =
     Some \<lparr>domain_id = 1,
           domain_mappings =
             \<lparr>root = Node Leaf (\<lparr>low = 0x1000, high = 0x1fff\<rparr>,
                                \<lparr>phys_addr_A = 0x5000, flags_A = 3\<rparr>) Leaf,
              ref_count = 2\<rparr>,
           endpoint_list = [7]\<rparr>"
  by code_simp

lemma ex_A_mapped_endpoint:
  "endpoints ex_A_mapped (ucast (virtio_iommu_get_sid \<lparr>bus_num = 0, devfn = 7\<rparr>)) =
     Some \<lparr>ep_id = 7, ep_domain = Some 1\<rparr>"
  by code_simp

lemma ex_B_mapped_as:
  "address_spaces ex_B_mapped 1 =
     Some \<lparr>as_id = 1,
           as_mappings =
             \<lparr>root = Node Leaf (\<lparr>low = 0x1000, high = 0x1fff\<rparr>,
                                \<lparr>virt_addr = 0x1000, phys_addr = 0x5000, msize = 0x1000,
                                 flags = 3\<rparr>) Leaf,
              ref_count = 2\<rparr>,
           device_list = [7]\<rparr>"
  by code_simp

lemma ex_B_mapped_device:
  "devices ex_B_mapped (ucast (virtio_iommu_get_sid \<lparr>bus_num = 0, devfn = 7\<rparr>)) =
     Some \<lparr>dev_id = 7, dev_as = Some 1, reserved_regions = \<lparr>root = Leaf, ref_count = 1\<rparr>\<rparr>"
  by code_simp

subsection \<open>Lazy creation of address spaces\<close>

text \<open>
  Claim C9, as stated, at a concrete input: in the state after realize the address space 1 is
  not in the registry, and a MAP request naming it returns \<open>NOENT\<close> and leaves the
  state as it was, so no address space is created.
\<close>

theorem C9_map_unknown_as_noent:
  "address_spaces ex_B_init 1 = None \<and>
   virtio_iommu_map_B ex_B_init
     \<lparr>map_address_space = 1, map_phys_addr = 0x5000, map_virt_addr = 0x1000,
      map_size = 0x1000, map_flags = 3\<rparr> = (VIRTIO_IOMMU_S_NOENT, ex_B_init) \<and>
   VIRTIO_IOMMU_S_NOENT \<noteq> VIRTIO_IOMMU_S_OK"
  by (simp add: ex_B_init_def init_B_def virtio_iommu_map_B_def status_defs)

text \<open>
  Claim C9, amended: for an address space identifier that is not in the registry, an
  ATTACH request (reserved field zero) naming it succeeds and creates the address space
  with an empty interval map, holding two references (the registry's and the attached
  device's); a MAP request naming it creates nothing and returns \<open>NOENT\<close>.
\<close>

theorem C9_attach_creates_map_does_not:
  assumes "address_spaces s asid = None"
  shows "(attach_reserved req = 0 \<and> attach_address_space req = asid \<longrightarrow>
            fst (virtio_iommu_attach_B s req) = VIRTIO_IOMMU_S_OK \<and>
            address_spaces (snd (virtio_iommu_attach_B s req)) asid =
              Some \<lparr>as_id = asid, as_mappings = \<lparr>root = Leaf, ref_count = 2\<rparr>,
                    device_list = [attach_device req]\<rparr>) \<and>
         (map_address_space mreq = asid \<longrightarrow>
            virtio_iommu_map_B s mreq = (VIRTIO_IOMMU_S_NOENT, s))"
proof -
  have m: "virtio_iommu_map_B s mreq = (VIRTIO_IOMMU_S_NOENT, s)"
    if "map_address_space mreq = asid"
    using assms that by (simp add: virtio_iommu_map_B_def Let_def)
  have a: "fst (virtio_iommu_attach_B s req) = VIRTIO_IOMMU_S_OK \<and>
           address_spaces (snd (virtio_iommu_attach_B s req)) asid =
             Some \<lparr>as_id = asid, as_mappings = \<lparr>root = Leaf, ref_count = 2\<rparr>,
                   device_list = [attach_device req]\<rparr>"
    if r: "attach_reserved req = 0" and q: "attach_address_space req = asid"
  proof -
    obtain dev s1 where g: "virtio_iommu_get_dev s (attach_device req) = (dev, s1)"
      by force
    have s1: "address_spaces s1 asid = None"
      using get_dev_address_spaces [of s "attach_device req"] g assms by simp
    define s2 where
      "s2 = (case dev_as dev of
               Some old \<Rightarrow> virtio_iommu_detach_dev_from_as s1 dev old
             | None \<Rightarrow> s1)"
    have s2: "address_spaces s2 asid = None"
      using s1 by (auto simp: s2_def detach_dev_keeps_absent split: option.splits)
    show ?thesis
      using r q g s2
      by (simp add: virtio_iommu_attach_B_def Let_def s2_def [symmetric]
          virtio_iommu_get_as_def g_tree_new_full_def g_tree_ref_def)
  qed
  show ?thesis using m a by blast
qed

theorem C9_attach_creates_map_does_not_witness:
  "address_spaces ex_B_init 1 = None \<and>
   fst (virtio_iommu_attach_B ex_B_init
          \<lparr>attach_address_space = 1, attach_device = 7, attach_reserved = 0\<rparr>)
     = VIRTIO_IOMMU_S_OK \<and>
   address_spaces (snd (virtio_iommu_attach_B ex_B_init
          \<lparr>attach_address_space = 1, attach_device = 7, attach_reserved = 0\<rparr>)) 1
     = Some \<lparr>as_id = 1, as_mappings = \<lparr>root = Leaf, ref_count = 2\<rparr>, device_list = [7]\<rparr> \<and>
   virtio_iommu_map_B ex_B_init
     \<lparr>map_address_space = 1, map_phys_addr = 0x5000, map_virt_addr = 0x1000,
      map_size = 0x1000, map_flags = 3\<rparr> = (VIRTIO_IOMMU_S_NOENT, ex_B_init)"
proof -
  have h: "address_spaces ex_B_init 1 = None"
    by (simp add: ex_B_init_def init_B_def)
  show ?thesis
    using h C9_attach_creates_map_does_not [OF h,
        of "\<lparr>attach_address_space = 1, attach_device = 7, attach_reserved = 0\<rparr>"
           "\<lparr>map_address_space = 1, map_phys_addr = 0x5000, map_virt_addr = 0x1000,
             map_size = 0x1000, map_flags = 3\<rparr>"]
    by simp
qed

subsection \<open>UNMAP of a range that is not mapped\<close>

text \<open>
  Claim C10: an UNMAP request for an existing domain (address space) whose range
  intersects no mapping of it returns \<open>OK\<close> and leaves the state, and so the interval map,
  as it was. Two intervals intersect, for the interval map, when its comparator returns 0
  on them (section 4.1 of the specification); by \<open>interval_cmp_A_zero_iff\<close> and
  \<open>interval_cmp_B_disjoint\<close> this is the case for no mapping when the requested range
  shares no address with any mapping. The first conjunct is variant A, the second
  variant B.
\<close>

theorem C10_unmap_of_unmapped_range:
  "(domains sA (unmap_domain_A reqA) = Some d \<and>
    (\<forall>(k, v) \<in> set_tree (root (domain_mappings d)).
        interval_cmp_A \<lparr>low = unmap_virt_start_A reqA, high = unmap_virt_end_A reqA\<rparr> k \<noteq> 0)
    \<longrightarrow> virtio_iommu_unmap_A sA reqA = Some (VIRTIO_IOMMU_S_OK, sA)) \<and>
   (address_spaces sB (unmap_address_space reqB) = Some a \<and>
    (\<forall>(k, v) \<in> set_tree (root (as_mappings a)).
        interval_cmp_B \<lparr>low = unmap_virt_addr reqB,
                        high = unmap_virt_addr reqB + unmap_size reqB - 1\<rparr> k \<noteq> 0)
    \<longrightarrow> virtio_iommu_unmap_B sB reqB = Some (VIRTIO_IOMMU_S_OK, sB))"
proof (intro conjI impI)
  assume h: "domains sA (unmap_domain_A reqA) = Some d \<and>
    (\<forall>(k, v) \<in> set_tree (root (domain_mappings d)).
        interval_cmp_A \<lparr>low = unmap_virt_start_A reqA, high = unmap_virt_end_A reqA\<rparr> k \<noteq> 0)"
  then have "g_tree_lookup_extended interval_cmp_A (domain_mappings d)
       \<lparr>low = unmap_virt_start_A reqA, high = unmap_virt_end_A reqA\<rparr> = None"
    by (simp add: g_tree_lookup_extended_def find_node_None)
  then have "unmap_loop_A (domain_mappings d)
       \<lparr>low = unmap_virt_start_A reqA, high = unmap_virt_end_A reqA\<rparr> = Some (VIRTIO_IOMMU_S_OK, domain_mappings d)"
    by (subst unmap_loop_A.simps) simp
  moreover have "(domains sA)(unmap_domain_A reqA \<mapsto> d) = domains sA"
    using h by (simp add: map_upd_triv)
  ultimately show "virtio_iommu_unmap_A sA reqA = Some (VIRTIO_IOMMU_S_OK, sA)"
    using h by (simp add: virtio_iommu_unmap_A_def)
next
  assume h: "address_spaces sB (unmap_address_space reqB) = Some a \<and>
    (\<forall>(k, v) \<in> set_tree (root (as_mappings a)).
        interval_cmp_B \<lparr>low = unmap_virt_addr reqB,
                        high = unmap_virt_addr reqB + unmap_size reqB - 1\<rparr> k \<noteq> 0)"
  then have "as_lookup sB (unmap_address_space reqB) \<lparr>low = unmap_virt_addr reqB,
                        high = unmap_virt_addr reqB + unmap_size reqB - 1\<rparr> = None"
    by (simp add: as_lookup_def g_tree_lookup_def find_node_None)
  then show "virtio_iommu_unmap_B sB reqB = Some (VIRTIO_IOMMU_S_OK, sB)"
    using h by (simp add: virtio_iommu_unmap_B_def Let_def unmap_loop_B.simps)
qed

theorem C10_unmap_of_unmapped_range_witness:
  "virtio_iommu_unmap_A ex_A_two
     \<lparr>unmap_domain_A = 1, unmap_virt_start_A = 0x2000, unmap_virt_end_A = 0x2fff\<rparr>
     = Some (VIRTIO_IOMMU_S_OK, ex_A_two) \<and>
   virtio_iommu_unmap_B ex_B_mapped
     \<lparr>unmap_address_space = 1, unmap_virt_addr = 0x3000, unmap_size = 0x1000\<rparr>
     = Some (VIRTIO_IOMMU_S_OK, ex_B_mapped)"
  using C10_unmap_of_unmapped_range
    [where sA = ex_A_two
       and reqA = "\<lparr>unmap_domain_A = 1, unmap_virt_start_A = 0x2000, unmap_virt_end_A = 0x2fff\<rparr>"
       and sB = ex_B_mapped
       and reqB = "\<lparr>unmap_address_space = 1, unmap_virt_addr = 0x3000, unmap_size = 0x1000\<rparr>"
       and d = "\<lparr>domain_id = 1,
           domain_mappings =
             \<lparr>root = Node (Node Leaf (\<lparr>low = 0x1000, high = 0x1fff\<rparr>,
                                      \<lparr>phys_addr_A = 0x5000, flags_A = 3\<rparr>) Leaf)
                           (\<lparr>low = 0x3000, high = 0x3fff\<rparr>, \<lparr>phys_addr_A = 0x8000, flags_A = 3\<rparr>)
                           Leaf,
              ref_count = 2\<rparr>,
           endpoint_list = [7]\<rparr>"
       and a = "\<lparr>as_id = 1,
           as_mappings =
             \<lparr>root = Node Leaf (\<lparr>low = 0x1000, high = 0x1fff\<rparr>,
                                \<lparr>virt_addr = 0x1000, phys_addr = 0x5000, msize = 0x1000,
                                 flags = 3\<rparr>) Leaf,
              ref_count = 2\<rparr>,
           device_list = [7]\<rparr>"]
  by (simp add: ex_A_two_domain ex_B_mapped_as interval_cmp_A_def interval_cmp_B_def)

subsection \<open>UNMAP strictly inside one mapping\<close>

text \<open>
  Claim C5, as stated, at a concrete input of variant B: address space 1 holds the one
  mapping \<open>[0x1000, 0x1fff]\<close>, the request \<open>[0x1400, 0x14ff]\<close> lies strictly inside it, and
  UNMAP returns \<open>INVAL\<close>, not \<open>RANGE\<close>.
\<close>

theorem C5_unmap_B_inval:
  "mappings_of_B ex_B_mapped 1 =
     [(\<lparr>low = 0x1000, high = 0x1fff\<rparr>,
       \<lparr>virt_addr = 0x1000, phys_addr = 0x5000, msize = 0x1000, flags = 3\<rparr>)] \<and>
   map_option fst (virtio_iommu_unmap_B ex_B_mapped
     \<lparr>unmap_address_space = 1, unmap_virt_addr = 0x1400, unmap_size = 0x100\<rparr>)
     = Some VIRTIO_IOMMU_S_INVAL \<and>
   VIRTIO_IOMMU_S_INVAL \<noteq> VIRTIO_IOMMU_S_RANGE"
  by code_simp

text \<open>
  Claim C5, amended: an UNMAP request whose range lies strictly inside one stored mapping
  of an interval map (a search tree of ranges) fails and leaves the whole state
  unchanged; the status is \<open>RANGE\<close> in variant A (first conjunct) and \<open>INVAL\<close> in
  variant B (second conjunct).
\<close>

theorem C5_interior_unmap_rejected:
  "(domains sA (unmap_domain_A reqA) = Some d \<and>
    sorted_tree_A (root (domain_mappings d)) \<and>
    (k, v) \<in> set_tree (root (domain_mappings d)) \<and>
    low k < unmap_virt_start_A reqA \<and>
    unmap_virt_start_A reqA \<le> unmap_virt_end_A reqA \<and>
    unmap_virt_end_A reqA < high k
    \<longrightarrow> virtio_iommu_unmap_A sA reqA = Some (VIRTIO_IOMMU_S_RANGE, sA)) \<and>
   (address_spaces sB (unmap_address_space reqB) = Some a \<and>
    sorted_tree_B (root (as_mappings a)) \<and> keyed_B (root (as_mappings a)) \<and>
    (kb, m) \<in> set_tree (root (as_mappings a)) \<and>
    low kb < unmap_virt_addr reqB \<and>
    unmap_virt_addr reqB \<le> unmap_virt_addr reqB + unmap_size reqB - 1 \<and>
    unmap_virt_addr reqB + unmap_size reqB - 1 < high kb
    \<longrightarrow> virtio_iommu_unmap_B sB reqB = Some (VIRTIO_IOMMU_S_INVAL, sB))"
proof (intro conjI impI)
  assume h: "domains sA (unmap_domain_A reqA) = Some d \<and>
    sorted_tree_A (root (domain_mappings d)) \<and>
    (k, v) \<in> set_tree (root (domain_mappings d)) \<and>
    low k < unmap_virt_start_A reqA \<and>
    unmap_virt_start_A reqA \<le> unmap_virt_end_A reqA \<and>
    unmap_virt_end_A reqA < high k"
  let ?q = "\<lparr>low = unmap_virt_start_A reqA, high = unmap_virt_end_A reqA\<rparr>"
  have "g_tree_find_node interval_cmp_A (root (domain_mappings d)) ?q = Some (k, v)"
    using h by (intro find_node_sorted_A) auto
  then have "unmap_loop_A (domain_mappings d) ?q = Some (VIRTIO_IOMMU_S_RANGE, domain_mappings d)"
    using h by (subst unmap_loop_A.simps) (auto simp: g_tree_lookup_extended_def)
  moreover have "(domains sA)(unmap_domain_A reqA \<mapsto> d) = domains sA"
    using h by (simp add: map_upd_triv)
  ultimately show "virtio_iommu_unmap_A sA reqA = Some (VIRTIO_IOMMU_S_RANGE, sA)"
    using h by (simp add: virtio_iommu_unmap_A_def)
next
  assume h: "address_spaces sB (unmap_address_space reqB) = Some a \<and>
    sorted_tree_B (root (as_mappings a)) \<and> keyed_B (root (as_mappings a)) \<and>
    (kb, m) \<in> set_tree (root (as_mappings a)) \<and>
    low kb < unmap_virt_addr reqB \<and>
    unmap_virt_addr reqB \<le> unmap_virt_addr reqB + unmap_size reqB - 1 \<and>
    unmap_virt_addr reqB + unmap_size reqB - 1 < high kb"
  let ?q = "\<lparr>low = unmap_virt_addr reqB, high = unmap_virt_addr reqB + unmap_size reqB - 1\<rparr>"
  have "g_tree_find_node interval_cmp_B (root (as_mappings a)) ?q = Some (kb, m)"
    using h by (intro find_node_sorted_B) auto
  then have l: "as_lookup sB (unmap_address_space reqB) ?q = Some m"
    using h by (simp add: as_lookup_def g_tree_lookup_def)
  have km: "low kb = virt_addr m" "high kb = virt_addr m + msize m - 1"
    using h by (auto simp: keyed_B_def)
  have "unmap_step_B sB (unmap_address_space reqB) (unmap_size reqB) ?q m = None"
    using h km by (auto simp: unmap_step_B_def Let_def)
  then show "virtio_iommu_unmap_B sB reqB = Some (VIRTIO_IOMMU_S_INVAL, sB)"
    using h l by (simp add: virtio_iommu_unmap_B_def Let_def unmap_loop_B.simps)
qed

theorem C5_interior_unmap_rejected_witness:
  "virtio_iommu_unmap_A ex_A_mapped
     \<lparr>unmap_domain_A = 1, unmap_virt_start_A = 0x1400, unmap_virt_end_A = 0x14ff\<rparr>
     = Some (VIRTIO_IOMMU_S_RANGE, ex_A_mapped) \<and>
   virtio_iommu_unmap_B ex_B_mapped
     \<lparr>unmap_address_space = 1, unmap_virt_addr = 0x1400, unmap_size = 0x100\<rparr>
     = Some (VIRTIO_IOMMU_S_INVAL, ex_B_mapped)"
  using C5_interior_unmap_rejected
    [where sA = ex_A_mapped
       and reqA = "\<lparr>unmap_domain_A = 1, unmap_virt_start_A = 0x1400, unmap_virt_end_A = 0x14ff\<rparr>"
       and k = "\<lparr>low = 0x1000, high = 0x1fff\<rparr>"
       and v = "\<lparr>phys_addr_A = 0x5000, flags_A = 3\<rparr>"
       and sB = ex_B_mapped
       and reqB = "\<lparr>unmap_address_space = 1, unmap_virt_addr = 0x1400, unmap_size = 0x100\<rparr>"
       and kb = "\<lparr>low = 0x1000, high = 0x1fff\<rparr>"
       and m = "\<lparr>virt_addr = 0x1000, phys_addr = 0x5000, msize = 0x1000, flags = 3\<rparr>"
       and d = "\<lparr>domain_id = 1,
           domain_mappings =
             \<lparr>root = Node Leaf (\<lparr>low = 0x1000, high = 0x1fff\<rparr>,
                                \<lparr>phys_addr_A = 0x5000, flags_A = 3\<rparr>) Leaf,
              ref_count = 2\<rparr>,
           endpoint_list = [7]\<rparr>"
       and a = "\<lparr>as_id = 1,
           as_mappings =
             \<lparr>root = Node Leaf (\<lparr>low = 0x1000, high = 0x1fff\<rparr>,
                                \<lparr>virt_addr = 0x1000, phys_addr = 0x5000, msize = 0x1000,
                                 flags = 3\<rparr>) Leaf,
              ref_count = 2\<rparr>,
           device_list = [7]\<rparr>"]
  by (simp add: ex_A_mapped_domain ex_B_mapped_as keyed_B_def)

subsection \<open>Translation of a mapped address\<close>

text \<open>
  For a device attached to a domain whose interval map is a search tree of ranges, and
  an address covered by a mapping of that domain and below the last address of the
  mapping, with flags that allow the access mode, translation returns
  \<open>addr - virt_start + phys_start\<close> with the requested permission. The first conjunct is
  variant A, the second variant B.
\<close>

lemma translate_inside_mapping:
  "(endpoints sA (ucast (virtio_iommu_get_sid sdevA)) = Some ep \<and> ep_domain ep = Some d \<and>
    domains sA d = Some dm \<and> sorted_tree_A (root (domain_mappings dm)) \<and>
    (k, v) \<in> set_tree (root (domain_mappings dm)) \<and>
    low k \<le> addrA \<and> addrA < high k \<and> \<not> access_refused flagA (flags_A v)
    \<longrightarrow> translated_addr (virtio_iommu_translate_A sA sdevA addrA flagA)
          = addrA - low k + phys_addr_A v \<and>
        perm (virtio_iommu_translate_A sA sdevA addrA flagA) = flagA) \<and>
   (devices sB (ucast (virtio_iommu_get_sid sdevB)) = Some dev \<and> dev_as dev = Some asid \<and>
    address_spaces sB asid = Some a \<and> sorted_tree_B (root (as_mappings a)) \<and>
    keyed_B (root (as_mappings a)) \<and> (kb, m) \<in> set_tree (root (as_mappings a)) \<and>
    virt_addr m \<le> addrB \<and> addrB < virt_addr m + msize m - 1 \<and>
    \<not> access_refused flagB (flags m)
    \<longrightarrow> translated_addr (virtio_iommu_translate_B sB sdevB addrB flagB)
          = addrB - virt_addr m + phys_addr m \<and>
        perm (virtio_iommu_translate_B sB sdevB addrB flagB) = flagB)"
proof (intro conjI impI)
  assume h: "endpoints sA (ucast (virtio_iommu_get_sid sdevA)) = Some ep \<and> ep_domain ep = Some d \<and>
    domains sA d = Some dm \<and> sorted_tree_A (root (domain_mappings dm)) \<and>
    (k, v) \<in> set_tree (root (domain_mappings dm)) \<and>
    low k \<le> addrA \<and> addrA < high k \<and> \<not> access_refused flagA (flags_A v)"
  let ?q = "\<lparr>low = addrA, high = addrA + 1\<rparr>"
  have f: "g_tree_find_node interval_cmp_A (root (domain_mappings dm)) ?q = Some (k, v)"
    using h word_succ_le1 [of addrA "high k"] word_succ_le2 [of addrA "high k"]
    by (intro find_node_sorted_A) auto
  show "translated_addr (virtio_iommu_translate_A sA sdevA addrA flagA)
          = addrA - low k + phys_addr_A v"
    using h f by (auto simp: virtio_iommu_translate_A_def Let_def g_tree_lookup_extended_def
        access_refused_def)
  show "perm (virtio_iommu_translate_A sA sdevA addrA flagA) = flagA"
    using h f by (auto simp: virtio_iommu_translate_A_def Let_def g_tree_lookup_extended_def
        access_refused_def)
next
  assume h: "devices sB (ucast (virtio_iommu_get_sid sdevB)) = Some dev \<and> dev_as dev = Some asid \<and>
    address_spaces sB asid = Some a \<and> sorted_tree_B (root (as_mappings a)) \<and>
    keyed_B (root (as_mappings a)) \<and> (kb, m) \<in> set_tree (root (as_mappings a)) \<and>
    virt_addr m \<le> addrB \<and> addrB < virt_addr m + msize m - 1 \<and>
    \<not> access_refused flagB (flags m)"
  let ?q = "\<lparr>low = addrB, high = addrB + 1\<rparr>"
  have km: "low kb = virt_addr m" "high kb = virt_addr m + msize m - 1"
    using h by (auto simp: keyed_B_def)
  have "g_tree_find_node interval_cmp_B (root (as_mappings a)) ?q = Some (kb, m)"
    using h km word_succ_le1 [of addrB "high kb"] word_succ_le2 [of addrB "high kb"]
    by (intro find_node_sorted_B) auto
  then have l: "as_lookup sB asid ?q = Some m"
    using h by (simp add: as_lookup_def g_tree_lookup_def)
  show "translated_addr (virtio_iommu_translate_B sB sdevB addrB flagB)
          = addrB - virt_addr m + phys_addr m"
    using h l by (auto simp: virtio_iommu_translate_B_def Let_def access_refused_def)
  show "perm (virtio_iommu_translate_B sB sdevB addrB flagB) = flagB"
    using h l by (auto simp: virtio_iommu_translate_B_def Let_def access_refused_def)
qed

text \<open>
  The example of the specification: after ATTACH (domain 1, device 7) and MAP (domain 1,
  virtual \<open>0x1000\<close>, size \<open>0x1000\<close>, physical \<open>0x5000\<close>, read and write), translating
  \<open>0x1050\<close> for device 7 for reading gives \<open>0x5050\<close> with the permission to read.
\<close>

lemma translate_example:
  "translated_addr (virtio_iommu_translate_A ex_A_mapped \<lparr>bus_num = 0, devfn = 7\<rparr> 0x1050 IOMMU_RO)
     = 0x5050 \<and>
   perm (virtio_iommu_translate_A ex_A_mapped \<lparr>bus_num = 0, devfn = 7\<rparr> 0x1050 IOMMU_RO)
     = IOMMU_RO \<and>
   translated_addr (virtio_iommu_translate_B ex_B_mapped \<lparr>bus_num = 0, devfn = 7\<rparr> 0x1050 IOMMU_RO)
     = 0x5050 \<and>
   perm (virtio_iommu_translate_B ex_B_mapped \<lparr>bus_num = 0, devfn = 7\<rparr> 0x1050 IOMMU_RO)
     = IOMMU_RO"
  using translate_inside_mapping
    [where sA = ex_A_mapped and sdevA = "\<lparr>bus_num = 0, devfn = 7\<rparr>"
       and ep = "\<lparr>ep_id = 7, ep_domain = Some 1\<rparr>" and d = 1
       and k = "\<lparr>low = 0x1000, high = 0x1fff\<rparr>"
       and v = "\<lparr>phys_addr_A = 0x5000, flags_A = 3\<rparr>"
       and addrA = "0x1050" and flagA = IOMMU_RO
       and sB = ex_B_mapped and sdevB = "\<lparr>bus_num = 0, devfn = 7\<rparr>"
       and dev = "\<lparr>dev_id = 7, dev_as = Some 1, reserved_regions = \<lparr>root = Leaf, ref_count = 1\<rparr>\<rparr>"
       and asid = 1
       and kb = "\<lparr>low = 0x1000, high = 0x1fff\<rparr>"
       and m = "\<lparr>virt_addr = 0x1000, phys_addr = 0x5000, msize = 0x1000, flags = 3\<rparr>"
       and addrB = "0x1050" and flagB = IOMMU_RO
       and dm = "\<lparr>domain_id = 1,
           domain_mappings =
             \<lparr>root = Node Leaf (\<lparr>low = 0x1000, high = 0x1fff\<rparr>,
                                \<lparr>phys_addr_A = 0x5000, flags_A = 3\<rparr>) Leaf,
              ref_count = 2\<rparr>,
           endpoint_list = [7]\<rparr>"
       and a = "\<lparr>as_id = 1,
           as_mappings =
             \<lparr>root = Node Leaf (\<lparr>low = 0x1000, high = 0x1fff\<rparr>,
                                \<lparr>virt_addr = 0x1000, phys_addr = 0x5000, msize = 0x1000,
                                 flags = 3\<rparr>) Leaf,
              ref_count = 2\<rparr>,
           device_list = [7]\<rparr>"]
  by (simp add: ex_A_mapped_domain ex_A_mapped_endpoint ex_B_mapped_as ex_B_mapped_device
      keyed_B_def access_refused_def flag_defs)

text \<open>
  Claim C3 fails on the code at the last address of a mapping. \<^verbatim>\<open>virtio_iommu_translate\<close>
  searches the interval map for \<open>[addr, addr + 1]\<close>, one address more than the one it
  translates.

  Variant B, after ATTACH (address space 1, device 7) and MAP (\<open>0x1000\<close>, size \<open>0x1000\<close>,
  physical \<open>0x5000\<close>, read and write): the address \<open>0x1fff\<close> is covered by the mapping,
  whose flags allow reading, and no fault of section 4.5 applies; the search for
  \<open>[0x1fff, 0x2000]\<close> compares as after the key \<open>[0x1000, 0x1fff]\<close> and finds nothing, and
  the translation returns the address \<open>0x1fff\<close> untranslated instead of \<open>0x5fff\<close>.

  Variant A, after ATTACH (domain 1, endpoint 7), MAP \<open>[0x2000, 0x2fff]\<close> to \<open>0x9000\<close> and
  MAP \<open>[0x1000, 0x1fff]\<close> to \<open>0x5000\<close>: the search for \<open>[0x1fff, 0x2000]\<close> stops at the
  root \<open>[0x2000, 0x2fff]\<close>, which does not cover \<open>0x1fff\<close>, and the translation returns
  \<open>0x1fff - 0x2000 + 0x9000 = 0x8fff\<close> instead of \<open>0x5fff\<close>.
\<close>

theorem C3_last_address_mistranslated:
  "mappings_of_B ex_B_mapped 1 =
     [(\<lparr>low = 0x1000, high = 0x1fff\<rparr>,
       \<lparr>virt_addr = 0x1000, phys_addr = 0x5000, msize = 0x1000, flags = 3\<rparr>)] \<and>
   map_option dev_as (devices ex_B_mapped 7) = Some (Some 1) \<and>
   mapping_covers \<lparr>virt_addr = 0x1000, phys_addr = 0x5000, msize = 0x1000, flags = 3\<rparr> 0x1fff \<and>
   \<not> access_refused IOMMU_RO 3 \<and>
   fault_B ex_B_mapped \<lparr>bus_num = 0, devfn = 7\<rparr> 0x1fff IOMMU_RO = None \<and>
   translated_addr (virtio_iommu_translate_B ex_B_mapped \<lparr>bus_num = 0, devfn = 7\<rparr> 0x1fff IOMMU_RO)
     = 0x1fff \<and>
   (0x1fff :: u64) - 0x1000 + 0x5000 = 0x5fff \<and> (0x1fff :: u64) \<noteq> 0x5fff \<and>
   mappings_of_A ex_A_adjacent 1 =
     [(\<lparr>low = 0x1000, high = 0x1fff\<rparr>, \<lparr>phys_addr_A = 0x5000, flags_A = 3\<rparr>),
      (\<lparr>low = 0x2000, high = 0x2fff\<rparr>, \<lparr>phys_addr_A = 0x9000, flags_A = 3\<rparr>)] \<and>
   map_option ep_domain (endpoints ex_A_adjacent 7) = Some (Some 1) \<and>
   addr_in 0x1fff \<lparr>low = 0x1000, high = 0x1fff\<rparr> \<and>
   \<not> addr_in 0x1fff \<lparr>low = 0x2000, high = 0x2fff\<rparr> \<and>
   fault_A ex_A_adjacent \<lparr>bus_num = 0, devfn = 7\<rparr> 0x1fff IOMMU_RO = None \<and>
   translated_addr (virtio_iommu_translate_A ex_A_adjacent \<lparr>bus_num = 0, devfn = 7\<rparr> 0x1fff IOMMU_RO)
     = 0x8fff \<and>
   (0x8fff :: u64) \<noteq> 0x5fff"
  by code_simp

subsection \<open>Permission of a faulting translation\<close>

text \<open>
  In variant A, with the bypass feature not acknowledged, a translation for an endpoint
  that is unknown or unattached returns the permission \<open>IOMMU_NONE\<close>, and so does one
  whose search of the interval map finds nothing.
\<close>

lemma translate_A_unknown_or_unattached:
  "fault_A s sdev addr flag = Some f \<Longrightarrow> f = UnknownDevice \<or> f = Unattached \<Longrightarrow>
   \<not> virtio_has_feature (acked_features s) VIRTIO_IOMMU_F_BYPASS \<Longrightarrow>
   perm (virtio_iommu_translate_A s sdev addr flag) = IOMMU_NONE"
  by (auto simp: fault_A_def virtio_iommu_translate_A_def Let_def
      split: option.splits list.splits if_splits)

lemma translate_A_search_fails:
  "endpoints s (ucast (virtio_iommu_get_sid sdev)) = Some ep \<Longrightarrow> ep_domain ep = Some d \<Longrightarrow>
   domains s d = Some dm \<Longrightarrow>
   g_tree_lookup_extended interval_cmp_A (domain_mappings dm) \<lparr>low = addr, high = addr + 1\<rparr>
     = None \<Longrightarrow>
   perm (virtio_iommu_translate_A s sdev addr flag) = IOMMU_NONE"
  by (simp add: virtio_iommu_translate_A_def Let_def)

text \<open>
  In variant B the result starts with the requested permission, and only the branch of
  the permission check clears it: a translation for a device that is unknown or
  unattached, or whose search finds nothing, returns the requested permission and the
  untranslated address.
\<close>

lemma translate_B_passes:
  "devices s (ucast (virtio_iommu_get_sid sdev)) = None \<or>
   (\<exists>dev. devices s (ucast (virtio_iommu_get_sid sdev)) = Some dev \<and>
      (dev_as dev = None \<or>
       (\<exists>asid. dev_as dev = Some asid \<and>
          as_lookup s asid \<lparr>low = addr, high = addr + 1\<rparr> = None))) \<Longrightarrow>
   perm (virtio_iommu_translate_B s sdev addr flag) = flag \<and>
   translated_addr (virtio_iommu_translate_B s sdev addr flag) = addr"
  by (auto simp: virtio_iommu_translate_B_def Let_def)

text \<open>
  Claim C4 fails on the code at concrete inputs, for the fault "no mapping covering the
  address".

  Variant A, bypass not acknowledged, after ATTACH (domain 1, endpoint 7) and MAP
  \<open>[0x1000, 0x1fff]\<close> to \<open>0x5000\<close>: no mapping covers the address \<open>0xfff\<close>, but the search
  for \<open>[0xfff, 0x1000]\<close>, one address more than the one translated, finds the mapping
  \<open>[0x1000, 0x1fff]\<close>, and the translation returns the permission to read, with the
  address \<open>0x4fff\<close>, below the physical range of the mapping.

  Variant B, which has no bypass feature, after ATTACH (address space 1, device 7): the
  address space has no mapping, and the translation of \<open>0x1000\<close> returns the permission
  to read; the branch for "no mapping" leaves the permission as requested, where the
  branch of the permission check next to it sets \<open>IOMMU_NONE\<close>.
\<close>

theorem C4_uncovered_address_permitted:
  "mappings_of_A ex_A_mapped 1 =
     [(\<lparr>low = 0x1000, high = 0x1fff\<rparr>, \<lparr>phys_addr_A = 0x5000, flags_A = 3\<rparr>)] \<and>
   \<not> addr_in 0xfff \<lparr>low = 0x1000, high = 0x1fff\<rparr> \<and>
   fault_A ex_A_mapped \<lparr>bus_num = 0, devfn = 7\<rparr> 0xfff IOMMU_RO = Some NoMapping \<and>
   \<not> virtio_has_feature (acked_features ex_A_mapped) VIRTIO_IOMMU_F_BYPASS \<and>
   perm (virtio_iommu_translate_A ex_A_mapped \<lparr>bus_num = 0, devfn = 7\<rparr> 0xfff IOMMU_RO)
     = IOMMU_RO \<and>
   translated_addr (virtio_iommu_translate_A ex_A_mapped \<lparr>bus_num = 0, devfn = 7\<rparr> 0xfff IOMMU_RO)
     = 0x4fff \<and>
   mappings_of_B ex_B_attached 1 = [] \<and>
   map_option dev_as (devices ex_B_attached 7) = Some (Some 1) \<and>
   fault_B ex_B_attached \<lparr>bus_num = 0, devfn = 7\<rparr> 0x1000 IOMMU_RO = Some NoMapping \<and>
   perm (virtio_iommu_translate_B ex_B_attached \<lparr>bus_num = 0, devfn = 7\<rparr> 0x1000 IOMMU_RO)
     = IOMMU_RO \<and>
   IOMMU_RO \<noteq> IOMMU_NONE"
  by code_simp

subsection \<open>ATTACH of a device that is attached elsewhere\<close>

text \<open>The two notifier loops of ATTACH produce the replayed notifications.\<close>

lemma foreach_entries_unmap:
  "foreach_entries (virtio_iommu_mapping_unmap node) xs out =
     out @ map (\<lambda>(k, m). virtio_iommu_notify_unmap node (virt_addr m) 0 (msize m)) xs"
  by (induction xs arbitrary: out) (auto simp: virtio_iommu_mapping_unmap_def)

lemma foreach_entries_map:
  "foreach_entries (virtio_iommu_mapping_map node) xs out =
     out @ map (\<lambda>(k, m). virtio_iommu_notify_map node (virt_addr m) (phys_addr m) (msize m)) xs"
  by (induction xs arbitrary: out) (auto simp: virtio_iommu_mapping_map_def)

lemma foreach_node_tree_unmap:
  "foreach_node_tree virtio_iommu_mapping_unmap devid t nodes out =
     out @ replayed_unmaps (node_matches devid) t nodes"
  by (induction nodes arbitrary: out)
     (auto simp: replayed_unmaps_def g_tree_foreach_def foreach_entries_unmap)

lemma foreach_node_tree_map:
  "foreach_node_tree virtio_iommu_mapping_map devid t nodes out =
     out @ replayed_maps (node_matches devid) t nodes"
  by (induction nodes arbitrary: out)
     (auto simp: replayed_maps_def g_tree_foreach_def foreach_entries_map)

lemma replayed_maps_ref: "replayed_maps sel (g_tree_ref t) nodes = replayed_maps sel t nodes"
  by (simp add: replayed_maps_def g_tree_ref_def g_tree_entries_def)

lemma attach_B_reattach:
  assumes d: "devices s devid = Some dev" and i: "dev_id dev = devid"
    and o: "dev_as dev = Some old" and n: "old \<noteq> asid"
    and oa: "address_spaces s old = Some oas"
    and r: "attach_address_space req = asid" "attach_device req = devid" "attach_reserved req = 0"
  shows "virtio_iommu_attach_B s req =
     (VIRTIO_IOMMU_S_OK,
      s\<lparr>address_spaces := (address_spaces s)
            (old \<mapsto> oas\<lparr>device_list := remove1 devid (device_list oas)\<rparr>,
             asid \<mapsto> (fst (virtio_iommu_get_as s asid))
                       \<lparr>device_list := devid # device_list (fst (virtio_iommu_get_as s asid)),
                        as_mappings := g_tree_ref (as_mappings (fst (virtio_iommu_get_as s asid)))\<rparr>),
        devices := (devices s)(devid \<mapsto> dev\<lparr>dev_as := Some asid\<rparr>),
        notified := notified s
                      @ replayed_unmaps (node_matches devid) (as_mappings oas) (notifiers_list s)
                      @ replayed_maps (node_matches devid)
                          (as_mappings (fst (virtio_iommu_get_as s asid))) (notifiers_list s)\<rparr>)"
  using assms
  by (cases "address_spaces s asid")
     (simp_all add: virtio_iommu_attach_B_def Let_def virtio_iommu_get_dev_def
        virtio_iommu_detach_dev_from_as_def virtio_iommu_get_as_def foreach_node_tree_unmap
        foreach_node_tree_map replayed_maps_ref fun_upd_twist)

lemma translate_B_depends:
  assumes "devices t (ucast (virtio_iommu_get_sid sdev)) = Some dev'" "dev_as dev' = Some asid"
    and "devices t' = devices t" "address_spaces t' asid = address_spaces t asid"
    and "page_size_mask_B t' = page_size_mask_B t"
  shows "virtio_iommu_translate_B t' sdev addr flag = virtio_iommu_translate_B t sdev addr flag"
  using assms by (simp add: virtio_iommu_translate_B_def Let_def as_lookup_def)

lemma attach_A_reattach:
  assumes d: "endpoints s epid = Some ep" and i: "ep_id ep = epid"
    and o: "ep_domain ep = Some old" and n: "old \<noteq> did"
    and oa: "domains s old = Some odm"
    and r: "attach_domain_A req = did" "attach_endpoint_A req = epid"
  shows "virtio_iommu_attach_A s req =
     (VIRTIO_IOMMU_S_OK,
      s\<lparr>domains := (domains s)
            (old \<mapsto> odm\<lparr>endpoint_list := remove1 epid (endpoint_list odm),
                         domain_mappings := g_tree_unref (domain_mappings odm)\<rparr>,
             did \<mapsto> (fst (virtio_iommu_get_domain s did))
                       \<lparr>endpoint_list := epid # endpoint_list (fst (virtio_iommu_get_domain s did)),
                        domain_mappings :=
                          g_tree_ref (domain_mappings (fst (virtio_iommu_get_domain s did)))\<rparr>),
        endpoints := (endpoints s)(epid \<mapsto> ep\<lparr>ep_domain := Some did\<rparr>)\<rparr>)"
  using assms
  by (cases "domains s did")
     (simp_all add: virtio_iommu_attach_A_def Let_def virtio_iommu_get_endpoint_def
        virtio_iommu_detach_endpoint_from_domain_def virtio_iommu_get_domain_def fun_upd_twist)

lemma translate_A_depends:
  assumes "endpoints t (ucast (virtio_iommu_get_sid sdev)) = Some ep'" "ep_domain ep' = Some did"
    and "endpoints t' = endpoints t" "domains t' did = domains t did"
    and "page_size_mask_A t' = page_size_mask_A t" "acked_features t' = acked_features t"
  shows "virtio_iommu_translate_A t' sdev addr flag = virtio_iommu_translate_A t sdev addr flag"
  using assms by (simp add: virtio_iommu_translate_A_def Let_def)

lemma ex_A_two_domains_facts:
  "endpoints ex_A_two_domains 7 = Some \<lparr>ep_id = 7, ep_domain = Some 1\<rparr>"
  "domains ex_A_two_domains 1 =
     Some \<lparr>domain_id = 1,
           domain_mappings =
             \<lparr>root = Node Leaf (\<lparr>low = 0x1000, high = 0x1fff\<rparr>,
                                \<lparr>phys_addr_A = 0x5000, flags_A = 3\<rparr>) Leaf,
              ref_count = 2\<rparr>,
           endpoint_list = [7]\<rparr>"
  "domains ex_A_two_domains 2 =
     Some \<lparr>domain_id = 2,
           domain_mappings =
             \<lparr>root = Node Leaf (\<lparr>low = 0x4000, high = 0x5fff\<rparr>,
                                \<lparr>phys_addr_A = 0x9000, flags_A = 1\<rparr>) Leaf,
              ref_count = 2\<rparr>,
           endpoint_list = [8]\<rparr>"
  by code_simp+

lemma ex_B_two_as_facts:
  "devices ex_B_two_as 7 =
     Some \<lparr>dev_id = 7, dev_as = Some 1, reserved_regions = \<lparr>root = Leaf, ref_count = 1\<rparr>\<rparr>"
  "address_spaces ex_B_two_as 1 =
     Some \<lparr>as_id = 1,
           as_mappings =
             \<lparr>root = Node Leaf (\<lparr>low = 0x1000, high = 0x1fff\<rparr>,
                                \<lparr>virt_addr = 0x1000, phys_addr = 0x5000, msize = 0x1000,
                                 flags = 3\<rparr>) Leaf,
              ref_count = 2\<rparr>,
           device_list = [7]\<rparr>"
  "address_spaces ex_B_two_as 2 =
     Some \<lparr>as_id = 2,
           as_mappings =
             \<lparr>root = Node Leaf (\<lparr>low = 0x4000, high = 0x5fff\<rparr>,
                                \<lparr>virt_addr = 0x4000, phys_addr = 0x9000, msize = 0x2000,
                                 flags = 1\<rparr>) Leaf,
              ref_count = 2\<rparr>,
           device_list = [8]\<rparr>"
  "notifiers_list ex_B_two_as = [\<lparr>bus_num = 0, devfn = 7\<rparr>]"
  "notified ex_B_two_as =
     [(\<lparr>bus_num = 0, devfn = 7\<rparr>,
       \<lparr>iova = 0x1000, translated_addr = 0x5000, addr_mask = 0xfff, perm = IOMMU_RW\<rparr>)]"
  by code_simp+

lemma sid_7: "ucast (virtio_iommu_get_sid \<lparr>bus_num = 0, devfn = 7\<rparr>) = (7 :: u32)"
  by code_simp

text \<open>
  The code selects the notifier nodes of a device by
  \<^verbatim>\<open>devid == node->iommu_dev->devfn\<close>. For a node on bus 0 this is the registration for
  the device; on another bus the device identifier includes the bus number and the test
  fails for the device's own notifier.
\<close>

lemma ucast_devfn:
  assumes "0 \<le> (n::int)" and "n < 256"
  shows "(ucast (word_of_int n :: 16 word) :: 32 word) = word_of_int n"
proof -
  have t: "take_bit 16 n = n"
    using assms by (simp add: take_bit_int_eq_self)
  have "int (nat n) = n" using assms(1) by simp
  then have "(word_of_int n :: 32 word) = word_of_int (int (nat n))" by (simp only:)
  also have "\<dots> = word_of_nat (nat n)" by (rule of_int_of_nat_eq)
  finally have w: "(word_of_nat (nat n) :: 32 word) = word_of_int n" by (rule sym)
  have "(ucast (word_of_int n :: 16 word) :: 32 word) = word_of_nat (nat (take_bit 16 n))"
    by (simp only: unsigned_of_int Type_Length.len_num0 Type_Length.len_num1 Type_Length.len_bit0) simp
  then show ?thesis
    by (simp only: t w)
qed

lemma node_matches_bus0:
  assumes "bus_num node = 0" and "0 \<le> devfn node" and "devfn node < 256"
  shows "node_matches devid node = notifier_of devid node"
  using assms ucast_devfn [of "devfn node"]
  by (auto simp: node_matches_def notifier_of_def virtio_iommu_get_sid_def)

text \<open>
  What ATTACH does for a device (endpoint) that is attached to a domain, when the
  request names a different domain and, in variant B, its reserved field is zero. It
  returns \<open>OK\<close>, takes the device out of the old domain's device list and puts it at the
  head of the target domain's list, creating the target domain when it does not exist;
  the target's interval map gains a reference; the device now points to the target. In
  variant B (second conjunct) the notifications made are, in this order, an unmap
  notification for every mapping of the old address space and a map notification for
  every mapping of the target, each to every notifier node the code selects. In variant
  A (first conjunct), which has no notifiers, the old domain's interval map loses a
  reference. Afterwards a translation for the device gives the same result in every
  state that agrees on the device registry and on the target domain: it does not depend
  on the mappings of any other domain.
\<close>

lemma attach_to_other_domain:
  "(endpoints sA epid = Some ep \<and> ep_id ep = epid \<and> ep_domain ep = Some oldA \<and>
    oldA \<noteq> did \<and> domains sA oldA = Some odm \<and>
    attach_domain_A reqA = did \<and> attach_endpoint_A reqA = epid
    \<longrightarrow>
      fst (virtio_iommu_attach_A sA reqA) = VIRTIO_IOMMU_S_OK \<and>
      endpoints (snd (virtio_iommu_attach_A sA reqA)) epid = Some (ep\<lparr>ep_domain := Some did\<rparr>) \<and>
      domains (snd (virtio_iommu_attach_A sA reqA)) oldA =
        Some (odm\<lparr>endpoint_list := remove1 epid (endpoint_list odm),
                  domain_mappings := g_tree_unref (domain_mappings odm)\<rparr>) \<and>
      domains (snd (virtio_iommu_attach_A sA reqA)) did =
        Some ((fst (virtio_iommu_get_domain sA did))
                \<lparr>endpoint_list := epid # endpoint_list (fst (virtio_iommu_get_domain sA did)),
                 domain_mappings :=
                   g_tree_ref (domain_mappings (fst (virtio_iommu_get_domain sA did)))\<rparr>) \<and>
      (ucast (virtio_iommu_get_sid sdevA) = epid \<and>
       endpoints tA = endpoints (snd (virtio_iommu_attach_A sA reqA)) \<and>
       domains tA did = domains (snd (virtio_iommu_attach_A sA reqA)) did \<and>
       page_size_mask_A tA = page_size_mask_A sA \<and> acked_features tA = acked_features sA
       \<longrightarrow> virtio_iommu_translate_A tA sdevA addrA flagA =
           virtio_iommu_translate_A (snd (virtio_iommu_attach_A sA reqA)) sdevA addrA flagA)) \<and>
   (devices sB devid = Some dev \<and> dev_id dev = devid \<and> dev_as dev = Some oldB \<and>
    oldB \<noteq> asid \<and> address_spaces sB oldB = Some oas \<and>
    attach_address_space reqB = asid \<and> attach_device reqB = devid \<and> attach_reserved reqB = 0
    \<longrightarrow>
      fst (virtio_iommu_attach_B sB reqB) = VIRTIO_IOMMU_S_OK \<and>
      devices (snd (virtio_iommu_attach_B sB reqB)) devid = Some (dev\<lparr>dev_as := Some asid\<rparr>) \<and>
      address_spaces (snd (virtio_iommu_attach_B sB reqB)) oldB =
        Some (oas\<lparr>device_list := remove1 devid (device_list oas)\<rparr>) \<and>
      address_spaces (snd (virtio_iommu_attach_B sB reqB)) asid =
        Some ((fst (virtio_iommu_get_as sB asid))
                \<lparr>device_list := devid # device_list (fst (virtio_iommu_get_as sB asid)),
                 as_mappings := g_tree_ref (as_mappings (fst (virtio_iommu_get_as sB asid)))\<rparr>) \<and>
      notified (snd (virtio_iommu_attach_B sB reqB)) =
        notified sB @ replayed_unmaps (node_matches devid) (as_mappings oas) (notifiers_list sB)
          @ replayed_maps (node_matches devid) (as_mappings (fst (virtio_iommu_get_as sB asid)))
              (notifiers_list sB) \<and>
      (ucast (virtio_iommu_get_sid sdevB) = devid \<and>
       devices tB = devices (snd (virtio_iommu_attach_B sB reqB)) \<and>
       address_spaces tB asid = address_spaces (snd (virtio_iommu_attach_B sB reqB)) asid \<and>
       page_size_mask_B tB = page_size_mask_B sB
       \<longrightarrow> virtio_iommu_translate_B tB sdevB addrB flagB =
           virtio_iommu_translate_B (snd (virtio_iommu_attach_B sB reqB)) sdevB addrB flagB))"
proof (intro conjI impI)
  assume h: "endpoints sA epid = Some ep \<and> ep_id ep = epid \<and> ep_domain ep = Some oldA \<and>
    oldA \<noteq> did \<and> domains sA oldA = Some odm \<and>
    attach_domain_A reqA = did \<and> attach_endpoint_A reqA = epid"
  note e = attach_A_reattach [of sA epid ep oldA did odm reqA]
  show "fst (virtio_iommu_attach_A sA reqA) = VIRTIO_IOMMU_S_OK"
    using h e by simp
  show "endpoints (snd (virtio_iommu_attach_A sA reqA)) epid = Some (ep\<lparr>ep_domain := Some did\<rparr>)"
    using h e by simp
  show "domains (snd (virtio_iommu_attach_A sA reqA)) oldA =
        Some (odm\<lparr>endpoint_list := remove1 epid (endpoint_list odm),
                  domain_mappings := g_tree_unref (domain_mappings odm)\<rparr>)"
    using h e by simp
  show "domains (snd (virtio_iommu_attach_A sA reqA)) did =
        Some ((fst (virtio_iommu_get_domain sA did))
                \<lparr>endpoint_list := epid # endpoint_list (fst (virtio_iommu_get_domain sA did)),
                 domain_mappings :=
                   g_tree_ref (domain_mappings (fst (virtio_iommu_get_domain sA did)))\<rparr>)"
    using h e by simp
  assume t: "ucast (virtio_iommu_get_sid sdevA) = epid \<and>
       endpoints tA = endpoints (snd (virtio_iommu_attach_A sA reqA)) \<and>
       domains tA did = domains (snd (virtio_iommu_attach_A sA reqA)) did \<and>
       page_size_mask_A tA = page_size_mask_A sA \<and> acked_features tA = acked_features sA"
  show "virtio_iommu_translate_A tA sdevA addrA flagA =
           virtio_iommu_translate_A (snd (virtio_iommu_attach_A sA reqA)) sdevA addrA flagA"
    using h e t
    by (intro translate_A_depends [where ep' = "ep\<lparr>ep_domain := Some did\<rparr>" and did = did]) simp_all
next
  assume h: "devices sB devid = Some dev \<and> dev_id dev = devid \<and> dev_as dev = Some oldB \<and>
    oldB \<noteq> asid \<and> address_spaces sB oldB = Some oas \<and>
    attach_address_space reqB = asid \<and> attach_device reqB = devid \<and> attach_reserved reqB = 0"
  note e = attach_B_reattach [of sB devid dev oldB asid oas reqB]
  show "fst (virtio_iommu_attach_B sB reqB) = VIRTIO_IOMMU_S_OK"
    using h e by simp
  show "devices (snd (virtio_iommu_attach_B sB reqB)) devid = Some (dev\<lparr>dev_as := Some asid\<rparr>)"
    using h e by simp
  show "address_spaces (snd (virtio_iommu_attach_B sB reqB)) oldB =
        Some (oas\<lparr>device_list := remove1 devid (device_list oas)\<rparr>)"
    using h e by simp
  show "address_spaces (snd (virtio_iommu_attach_B sB reqB)) asid =
        Some ((fst (virtio_iommu_get_as sB asid))
                \<lparr>device_list := devid # device_list (fst (virtio_iommu_get_as sB asid)),
                 as_mappings := g_tree_ref (as_mappings (fst (virtio_iommu_get_as sB asid)))\<rparr>)"
    using h e by simp
  show "notified (snd (virtio_iommu_attach_B sB reqB)) =
        notified sB @ replayed_unmaps (node_matches devid) (as_mappings oas) (notifiers_list sB)
          @ replayed_maps (node_matches devid) (as_mappings (fst (virtio_iommu_get_as sB asid)))
              (notifiers_list sB)"
    using h e by simp
  assume t: "ucast (virtio_iommu_get_sid sdevB) = devid \<and>
       devices tB = devices (snd (virtio_iommu_attach_B sB reqB)) \<and>
       address_spaces tB asid = address_spaces (snd (virtio_iommu_attach_B sB reqB)) asid \<and>
       page_size_mask_B tB = page_size_mask_B sB"
  show "virtio_iommu_translate_B tB sdevB addrB flagB =
           virtio_iommu_translate_B (snd (virtio_iommu_attach_B sB reqB)) sdevB addrB flagB"
    using h e t
    by (intro translate_B_depends [where dev' = "dev\<lparr>dev_as := Some asid\<rparr>" and asid = asid]) simp_all
qed

text \<open>
  The same at a concrete input, for the device at function 7 of bus 0: its notifier
  receives the unmap notification of the old address space and the map notification of
  the target.
\<close>

lemma attach_to_other_domain_example:
  "fst (virtio_iommu_attach_A ex_A_two_domains \<lparr>attach_domain_A = 2, attach_endpoint_A = 7\<rparr>)
     = VIRTIO_IOMMU_S_OK \<and>
   endpoints ex_A_reattached 7 = Some \<lparr>ep_id = 7, ep_domain = Some 2\<rparr> \<and>
   map_option endpoint_list (domains ex_A_reattached 1) = Some [] \<and>
   map_option endpoint_list (domains ex_A_reattached 2) = Some [7, 8] \<and>
   map_option (ref_count \<circ> domain_mappings) (domains ex_A_reattached 2) = Some 3 \<and>
   virtio_iommu_translate_A (ex_A_reattached\<lparr>domains := (domains ex_A_reattached)(1 := None)\<rparr>)
       \<lparr>bus_num = 0, devfn = 7\<rparr> 0x4010 IOMMU_RO
     = virtio_iommu_translate_A ex_A_reattached \<lparr>bus_num = 0, devfn = 7\<rparr> 0x4010 IOMMU_RO \<and>
   fst (virtio_iommu_attach_B ex_B_two_as
          \<lparr>attach_address_space = 2, attach_device = 7, attach_reserved = 0\<rparr>)
     = VIRTIO_IOMMU_S_OK \<and>
   map_option dev_as (devices ex_B_reattached 7) = Some (Some 2) \<and>
   map_option device_list (address_spaces ex_B_reattached 1) = Some [] \<and>
   map_option device_list (address_spaces ex_B_reattached 2) = Some [7, 8] \<and>
   map_option (ref_count \<circ> as_mappings) (address_spaces ex_B_reattached 2) = Some 3 \<and>
   notified ex_B_reattached =
     [(\<lparr>bus_num = 0, devfn = 7\<rparr>,
       \<lparr>iova = 0x1000, translated_addr = 0x5000, addr_mask = 0xfff, perm = IOMMU_RW\<rparr>),
      (\<lparr>bus_num = 0, devfn = 7\<rparr>,
       \<lparr>iova = 0x1000, translated_addr = 0, addr_mask = 0xfff, perm = IOMMU_NONE\<rparr>),
      (\<lparr>bus_num = 0, devfn = 7\<rparr>,
       \<lparr>iova = 0x4000, translated_addr = 0x9000, addr_mask = 0x1fff, perm = IOMMU_RW\<rparr>)] \<and>
   virtio_iommu_translate_B
       (ex_B_reattached\<lparr>address_spaces := (address_spaces ex_B_reattached)(1 := None)\<rparr>)
       \<lparr>bus_num = 0, devfn = 7\<rparr> 0x4010 IOMMU_RO
     = virtio_iommu_translate_B ex_B_reattached \<lparr>bus_num = 0, devfn = 7\<rparr> 0x4010 IOMMU_RO"
proof -
  have pa: "page_size_mask_A ex_A_reattached = page_size_mask_A ex_A_two_domains"
    and fa: "acked_features ex_A_reattached = acked_features ex_A_two_domains"
    and pb: "page_size_mask_B ex_B_reattached = page_size_mask_B ex_B_two_as"
    by (simp_all add: ex_A_reattached_def virtio_iommu_attach_A_def ex_B_reattached_def
        virtio_iommu_attach_B_def virtio_iommu_get_endpoint_def virtio_iommu_get_domain_def
        virtio_iommu_detach_endpoint_from_domain_def virtio_iommu_get_dev_def
        virtio_iommu_get_as_def virtio_iommu_detach_dev_from_as_def Let_def
        split: option.splits prod.splits)
  show ?thesis
    using attach_to_other_domain
      [where sA = ex_A_two_domains and epid = 7 and ep = "\<lparr>ep_id = 7, ep_domain = Some 1\<rparr>"
         and oldA = 1 and did = 2
         and odm = "\<lparr>domain_id = 1,
           domain_mappings =
             \<lparr>root = Node Leaf (\<lparr>low = 0x1000, high = 0x1fff\<rparr>,
                                \<lparr>phys_addr_A = 0x5000, flags_A = 3\<rparr>) Leaf,
              ref_count = 2\<rparr>,
           endpoint_list = [7]\<rparr>"
         and reqA = "\<lparr>attach_domain_A = 2, attach_endpoint_A = 7\<rparr>"
         and sdevA = "\<lparr>bus_num = 0, devfn = 7\<rparr>"
         and tA = "ex_A_reattached\<lparr>domains := (domains ex_A_reattached)(1 := None)\<rparr>"
         and addrA = "0x4010" and flagA = IOMMU_RO
         and sB = ex_B_two_as and devid = 7
         and dev = "\<lparr>dev_id = 7, dev_as = Some 1,
                     reserved_regions = \<lparr>root = Leaf, ref_count = 1\<rparr>\<rparr>"
         and oldB = 1 and asid = 2
         and oas = "\<lparr>as_id = 1,
           as_mappings =
             \<lparr>root = Node Leaf (\<lparr>low = 0x1000, high = 0x1fff\<rparr>,
                                \<lparr>virt_addr = 0x1000, phys_addr = 0x5000, msize = 0x1000,
                                 flags = 3\<rparr>) Leaf,
              ref_count = 2\<rparr>,
           device_list = [7]\<rparr>"
         and reqB = "\<lparr>attach_address_space = 2, attach_device = 7, attach_reserved = 0\<rparr>"
         and sdevB = "\<lparr>bus_num = 0, devfn = 7\<rparr>"
         and tB = "ex_B_reattached\<lparr>address_spaces := (address_spaces ex_B_reattached)(1 := None)\<rparr>"
         and addrB = "0x4010" and flagB = IOMMU_RO]
      pa fa pb
    by (simp add: ex_A_two_domains_facts ex_B_two_as_facts sid_7 ex_A_reattached_def [symmetric]
        ex_B_reattached_def [symmetric] virtio_iommu_get_domain_def virtio_iommu_get_as_def
        g_tree_ref_def g_tree_unref_def replayed_unmaps_def replayed_maps_def node_matches_def
        g_tree_entries_def virtio_iommu_notify_unmap_def virtio_iommu_notify_map_def flag_defs)
qed

text \<open>
  Claim C7 fails on the code of variant B at a concrete input, in the replay to the
  notifier. The device at function 7 of bus 1 has the identifier \<open>0x107\<close>, under which
  the PCI layer registers it and \<^verbatim>\<open>virtio_iommu_translate\<close> looks it up; a notifier is
  registered on its memory region. The device is attached to address space 1, and
  address space 2 holds the mapping \<open>[0x4000, 0x5fff]\<close>. ATTACH (address space 2, device
  \<open>0x107\<close>) returns \<open>OK\<close> and the device points to address space 2, but no notification
  is made: \<^verbatim>\<open>virtio_iommu_attach\<close> compares the device identifier with the \<^verbatim>\<open>devfn\<close> of
  the node, 7, and not with the identifier of the node's device. The replay to the
  notifier registered for the device is one map notification for \<open>[0x4000, 0x5fff]\<close>.
\<close>

theorem C7_replay_misses_notifier:
  "notifiers_list ex_B_bus1 = [\<lparr>bus_num = 1, devfn = 7\<rparr>] \<and>
   notifier_of 0x107 \<lparr>bus_num = 1, devfn = 7\<rparr> \<and>
   \<not> node_matches 0x107 \<lparr>bus_num = 1, devfn = 7\<rparr> \<and>
   map_option dev_as (devices ex_B_bus1 0x107) = Some (Some 1) \<and>
   mappings_of_B ex_B_bus1 2 =
     [(\<lparr>low = 0x4000, high = 0x5fff\<rparr>,
       \<lparr>virt_addr = 0x4000, phys_addr = 0x9000, msize = 0x2000, flags = 1\<rparr>)] \<and>
   notified ex_B_bus1 = [] \<and>
   fst (virtio_iommu_attach_B ex_B_bus1
          \<lparr>attach_address_space = 2, attach_device = 0x107, attach_reserved = 0\<rparr>)
     = VIRTIO_IOMMU_S_OK \<and>
   map_option dev_as (devices (snd (virtio_iommu_attach_B ex_B_bus1
          \<lparr>attach_address_space = 2, attach_device = 0x107, attach_reserved = 0\<rparr>)) 0x107)
     = Some (Some 2) \<and>
   notified (snd (virtio_iommu_attach_B ex_B_bus1
          \<lparr>attach_address_space = 2, attach_device = 0x107, attach_reserved = 0\<rparr>)) = [] \<and>
   map_option (\<lambda>a. replayed_maps (notifier_of 0x107) (as_mappings a) (notifiers_list ex_B_bus1))
       (address_spaces ex_B_bus1 2) =
     Some [(\<lparr>bus_num = 1, devfn = 7\<rparr>,
            \<lparr>iova = 0x4000, translated_addr = 0x9000, addr_mask = 0x1fff, perm = IOMMU_RW\<rparr>)]"
  by code_simp

subsection \<open>Overlapping mappings in variant B\<close>

text \<open>
  Claim C1 fails on the code of variant B at a concrete input. Two MAP requests, for
  \<open>[0, 0xfff]\<close> and for \<open>[0xfff, 0x1ffe]\<close>, both return \<open>OK\<close>; the interval map then
  holds two mappings that share the address \<open>0xfff\<close>. The comparator treats
  \<open>high \<le> low\<close> as "before", while the keys include their last address. Variant A,
  whose comparator is strict, keeps its mappings disjoint as long as every MAP request
  is a range (\<open>variant_A_no_overlap\<close> below).
\<close>

theorem C1_overlapping_mappings_accepted:
  "mappings_of_B ex_B_attached 1 = [] \<and>
   fst (virtio_iommu_map_B ex_B_attached
          \<lparr>map_address_space = 1, map_phys_addr = 0x5000, map_virt_addr = 0,
           map_size = 0x1000, map_flags = 3\<rparr>) = VIRTIO_IOMMU_S_OK \<and>
   fst (virtio_iommu_map_B ex_B_first_page
          \<lparr>map_address_space = 1, map_phys_addr = 0x9000, map_virt_addr = 0xfff,
           map_size = 0x1000, map_flags = 3\<rparr>) = VIRTIO_IOMMU_S_OK \<and>
   mappings_of_B
     (snd (virtio_iommu_map_B ex_B_first_page
          \<lparr>map_address_space = 1, map_phys_addr = 0x9000, map_virt_addr = 0xfff,
           map_size = 0x1000, map_flags = 3\<rparr>)) 1 =
     [(\<lparr>low = 0, high = 0xfff\<rparr>,
       \<lparr>virt_addr = 0, phys_addr = 0x5000, msize = 0x1000, flags = 3\<rparr>),
      (\<lparr>low = 0xfff, high = 0x1ffe\<rparr>,
       \<lparr>virt_addr = 0xfff, phys_addr = 0x9000, msize = 0x1000, flags = 3\<rparr>)] \<and>
   addr_in 0xfff \<lparr>low = 0, high = 0xfff\<rparr> \<and> addr_in 0xfff \<lparr>low = 0xfff, high = 0x1ffe\<rparr> \<and>
   mapping_covers \<lparr>virt_addr = 0, phys_addr = 0x5000, msize = 0x1000, flags = 3\<rparr> 0xfff \<and>
   mapping_covers \<lparr>virt_addr = 0xfff, phys_addr = 0x9000, msize = 0x1000, flags = 3\<rparr> 0xfff"
  by code_simp

text \<open>
  The same comparator on a key of size 0: after a mapping of size 0 at address 10 the
  mappings \<open>[9, 20]\<close> and \<open>[5, 10]\<close> are both accepted, although the comparator itself
  returns 0 on them.
\<close>

lemma B_overlap_by_comparator:
  "fst (virtio_iommu_map_B ex_B_attached
          \<lparr>map_address_space = 1, map_phys_addr = 0x5000, map_virt_addr = 10,
           map_size = 0, map_flags = 3\<rparr>) = VIRTIO_IOMMU_S_OK \<and>
   fst (virtio_iommu_map_B ex_B_empty_first
          \<lparr>map_address_space = 1, map_phys_addr = 0x7000, map_virt_addr = 5,
           map_size = 6, map_flags = 3\<rparr>) = VIRTIO_IOMMU_S_OK \<and>
   map fst (mappings_of_B
     (snd (virtio_iommu_map_B ex_B_empty_first
          \<lparr>map_address_space = 1, map_phys_addr = 0x7000, map_virt_addr = 5,
           map_size = 6, map_flags = 3\<rparr>)) 1) =
     [\<lparr>low = 5, high = 10\<rparr>, \<lparr>low = 10, high = 9\<rparr>, \<lparr>low = 9, high = 20\<rparr>] \<and>
   interval_cmp_B \<lparr>low = 5, high = 10\<rparr> \<lparr>low = 9, high = 20\<rparr> = 0 \<and>
   interval_cmp_B \<lparr>low = 9, high = 20\<rparr> \<lparr>low = 5, high = 10\<rparr> = 0"
  by code_simp

text \<open>
  Claim C2 fails on the code of variant B at a concrete input: the same MAP request, for
  the one byte at \<open>0x1000\<close>, is issued twice in a row; both calls return \<open>OK\<close> and the
  interval map holds the mapping twice. In variant A a MAP request for a range returns
  \<open>INVAL\<close> exactly when the range shares an address with a mapping
  (\<open>map_A_inval_iff\<close> below).
\<close>

theorem C2_map_accepts_mapped_range:
  "fst (virtio_iommu_map_B ex_B_attached
          \<lparr>map_address_space = 1, map_phys_addr = 0x5000, map_virt_addr = 0x1000,
           map_size = 1, map_flags = 3\<rparr>) = VIRTIO_IOMMU_S_OK \<and>
   mappings_of_B ex_B_byte 1 =
     [(\<lparr>low = 0x1000, high = 0x1000\<rparr>,
       \<lparr>virt_addr = 0x1000, phys_addr = 0x5000, msize = 1, flags = 3\<rparr>)] \<and>
   fst (virtio_iommu_map_B ex_B_byte
          \<lparr>map_address_space = 1, map_phys_addr = 0x5000, map_virt_addr = 0x1000,
           map_size = 1, map_flags = 3\<rparr>) = VIRTIO_IOMMU_S_OK \<and>
   VIRTIO_IOMMU_S_OK \<noteq> VIRTIO_IOMMU_S_INVAL \<and>
   mappings_of_B
     (snd (virtio_iommu_map_B ex_B_byte
          \<lparr>map_address_space = 1, map_phys_addr = 0x5000, map_virt_addr = 0x1000,
           map_size = 1, map_flags = 3\<rparr>)) 1 =
     [(\<lparr>low = 0x1000, high = 0x1000\<rparr>,
       \<lparr>virt_addr = 0x1000, phys_addr = 0x5000, msize = 1, flags = 3\<rparr>),
      (\<lparr>low = 0x1000, high = 0x1000\<rparr>,
       \<lparr>virt_addr = 0x1000, phys_addr = 0x5000, msize = 1, flags = 3\<rparr>)]"
  by code_simp

subsection \<open>PROBE\<close>




lemma probe_known_device_ok:
  "devices s (probe_device req) = Some dev \<Longrightarrow>
   fst (virtio_iommu_probe resv_sz s req) = VIRTIO_IOMMU_S_OK"
  by (simp add: virtio_iommu_probe_def Let_def split: prod.splits)

text \<open>
  \<^verbatim>\<open>virtio_iommu_probe\<close> ignores what \<^verbatim>\<open>virtio_iommu_fill_property\<close> returns. On a
  state built directly, in which device 7 has 22 reserved regions, with
  \<^verbatim>\<open>sizeof(struct virtio_iommu_probe_resv_mem)\<close> taken as 20, the properties need
  \<open>22 * 24 + 4 = 532\<close> bytes, more than the 512 of the buffer: the probe fills 528 bytes,
  sets the error flag because the terminating property does not fit, writes 22
  properties and no terminating one, and returns \<open>OK\<close>. No function of the sources adds a
  reserved region to a device, so no run reaches such a state (\<open>run_B_no_reserved\<close>
  below).
\<close>

lemma probe_overflow_returns_ok:
  "fst (virtio_iommu_probe 20 (ex_B_resv 22) \<lparr>probe_device = 7\<rparr>) = VIRTIO_IOMMU_S_OK \<and>
   buffer_summary (snd (virtio_iommu_probe 20 (ex_B_resv 22) \<lparr>probe_device = 7\<rparr>))
     = Some (528, True, 22) \<and>
   VIOMMU_PROBE_SIZE < 528 \<and>
   VIOMMU_PROBE_SIZE < property_bytes 20 \<lparr>dev_id = 7, dev_as = None,
       reserved_regions = \<lparr>root = resv_spine 22 0, ref_count = 1\<rparr>\<rparr>"
proof -
  have "devices (ex_B_resv 22) (probe_device \<lparr>probe_device = 7\<rparr>) =
          Some \<lparr>dev_id = 7, dev_as = None,
                reserved_regions = \<lparr>root = resv_spine 22 0, ref_count = 1\<rparr>\<rparr>"
    by (simp add: ex_B_resv_def)
  then have 1: "fst (virtio_iommu_probe 20 (ex_B_resv 22) \<lparr>probe_device = 7\<rparr>) = VIRTIO_IOMMU_S_OK"
    by (rule probe_known_device_ok)
  have 2: "buffer_summary (snd (virtio_iommu_probe 20 (ex_B_resv 22) \<lparr>probe_device = 7\<rparr>))
     = Some (528, True, 22)"
    by code_simp
  have 3: "VIOMMU_PROBE_SIZE < property_bytes 20 \<lparr>dev_id = 7, dev_as = None,
       reserved_regions = \<lparr>root = resv_spine 22 0, ref_count = 1\<rparr>\<rparr>"
    by code_simp
  show ?thesis
    using 1 2 3 by (simp add: VIOMMU_PROBE_SIZE_def)
qed





















subsection \<open>UNMAP is not atomic\<close>

text \<open>
  Claim C6 (variant A, the one with the \<open>RANGE\<close> status): domain 1 holds the mappings
  \<open>[0x1000, 0x1fff]\<close> and \<open>[0x3000, 0x3fff]\<close>, both of which intersect the requested range
  \<open>[0x1800, 0x3fff]\<close>. The UNMAP request first finds and removes \<open>[0x3000, 0x3fff]\<close>, then
  finds \<open>[0x1000, 0x1fff]\<close>, which it does not cover, and returns \<open>RANGE\<close>; the first
  removal stays.
\<close>

theorem C6_unmap_not_atomic:
  "map_option (g_tree_entries \<circ> domain_mappings) (domains ex_A_two 1) =
     Some [(\<lparr>low = 0x1000, high = 0x1fff\<rparr>, \<lparr>phys_addr_A = 0x5000, flags_A = 3\<rparr>),
           (\<lparr>low = 0x3000, high = 0x3fff\<rparr>, \<lparr>phys_addr_A = 0x8000, flags_A = 3\<rparr>)] \<and>
   interval_cmp_A \<lparr>low = 0x1800, high = 0x3fff\<rparr> \<lparr>low = 0x1000, high = 0x1fff\<rparr> = 0 \<and>
   interval_cmp_A \<lparr>low = 0x1800, high = 0x3fff\<rparr> \<lparr>low = 0x3000, high = 0x3fff\<rparr> = 0 \<and>
   (case virtio_iommu_unmap_A ex_A_two
           \<lparr>unmap_domain_A = 1, unmap_virt_start_A = 0x1800, unmap_virt_end_A = 0x3fff\<rparr> of
      None \<Rightarrow> False
    | Some (ret, s') \<Rightarrow>
        ret = VIRTIO_IOMMU_S_RANGE \<and>
        map_option (g_tree_entries \<circ> domain_mappings) (domains s' 1) =
          Some [(\<lparr>low = 0x1000, high = 0x1fff\<rparr>, \<lparr>phys_addr_A = 0x5000, flags_A = 3\<rparr>)])"
  by code_simp

subsection \<open>Variant A on ranges\<close>

text \<open>
  What variant A guarantees when every MAP request is a range (\<open>virt_start \<le> virt_end\<close>),
  which the code does not check: the interval maps stay search trees of ranges, so that
  no two mappings of a domain intersect, MAP returns \<open>INVAL\<close> exactly when the requested
  range intersects a mapping, and UNMAP returns.
\<close>

lemma sorted_tree_A_Node:
  "sorted_tree_A (Node l (k, v) r) =
     (low k \<le> high k \<and> (\<forall>e \<in> set_tree l. high (fst e) < low k) \<and>
      (\<forall>e \<in> set_tree r. high k < low (fst e)) \<and> sorted_tree_A l \<and> sorted_tree_A r)"
  by auto

lemma sorted_tree_A_range:
  "sorted_tree_A t \<Longrightarrow> (k, v) \<in> set_tree t \<Longrightarrow> low k \<le> high k"
  by (induction t) auto

lemma sorted_tree_A_disjoint:
  "sorted_tree_A t \<Longrightarrow> (k1, v1) \<in> set_tree t \<Longrightarrow> (k2, v2) \<in> set_tree t \<Longrightarrow>
   (k1, v1) \<noteq> (k2, v2) \<Longrightarrow> high k1 < low k2 \<or> high k2 < low k1"
proof (induction t)
  case Leaf
  then show ?case by simp
next
  case (Node l a r)
  obtain k v where a: "a = (k, v)" by (cases a)
  have wl: "\<And>k' v'. (k', v') \<in> set_tree l \<Longrightarrow> high k' < low k \<and> low k' \<le> high k'"
    using Node.prems(1) a sorted_tree_A_range [of l] by auto
  have wr: "\<And>k' v'. (k', v') \<in> set_tree r \<Longrightarrow> high k < low k' \<and> low k' \<le> high k'"
    using Node.prems(1) a sorted_tree_A_range [of r] by auto
  have wk: "low k \<le> high k" using Node.prems(1) a by simp
  from Node.prems(2,3) a
  consider "(k1, v1) \<in> set_tree l" "(k2, v2) \<in> set_tree l"
    | "(k1, v1) \<in> set_tree r" "(k2, v2) \<in> set_tree r"
    | "(k1, v1) = (k, v)" "(k2, v2) = (k, v)"
    | "(k1, v1) \<in> set_tree l" "(k2, v2) = (k, v) \<or> (k2, v2) \<in> set_tree r"
    | "(k2, v2) \<in> set_tree l" "(k1, v1) = (k, v) \<or> (k1, v1) \<in> set_tree r"
    | "(k1, v1) = (k, v)" "(k2, v2) \<in> set_tree r"
    | "(k2, v2) = (k, v)" "(k1, v1) \<in> set_tree r"
    by auto
  then show ?case
  proof cases
    case 1
    then show ?thesis using Node.IH(1) Node.prems a by simp
  next
    case 2
    then show ?thesis using Node.IH(2) Node.prems a by simp
  next
    case 3
    then show ?thesis using Node.prems(4) by simp
  next
    case 4
    then show ?thesis using wl [of k1 v1] wr [of k2 v2] wk by auto
  next
    case 5
    then show ?thesis using wl [of k2 v2] wr [of k1 v1] wk by auto
  next
    case 6
    then show ?thesis using wr [of k2 v2] by auto
  next
    case 7
    then show ?thesis using wr [of k1 v1] by auto
  qed
qed

lemma find_node_exists_A:
  "sorted_tree_A t \<Longrightarrow> low q \<le> high q \<Longrightarrow> (k0, v0) \<in> set_tree t \<Longrightarrow>
   interval_cmp_A q k0 = 0 \<Longrightarrow> \<exists>e. g_tree_find_node interval_cmp_A t q = Some e"
proof (induction t)
  case Leaf
  then show ?case by simp
next
  case (Node l a r)
  obtain k v where a: "a = (k, v)" by (cases a)
  have wl: "\<And>k' v'. (k', v') \<in> set_tree l \<Longrightarrow> high k' < low k \<and> low k' \<le> high k'"
    using Node.prems(1) a sorted_tree_A_range [of l] by auto
  have wr: "\<And>k' v'. (k', v') \<in> set_tree r \<Longrightarrow> high k < low k' \<and> low k' \<le> high k'"
    using Node.prems(1) a sorted_tree_A_range [of r] by auto
  have wk: "low k \<le> high k" using Node.prems(1) a by simp
  consider "interval_cmp_A q k = 0" | "high q < low k" | "\<not> high q < low k" "high k < low q"
    by (cases "high q < low k"; cases "high k < low q") (auto simp: interval_cmp_A_def)
  then show ?case
  proof cases
    case 1
    then show ?thesis using a by simp
  next
    case 2
    then have c: "interval_cmp_A q k = - 1" by (simp add: interval_cmp_A_def)
    have "(k0, v0) \<in> set_tree l"
      using Node.prems(3,4) a 2 c wr [of k0 v0] wk by (auto simp: interval_cmp_A_def split: if_splits)
    then show ?thesis using Node.IH(1) Node.prems a c by simp
  next
    case 3
    then have c: "interval_cmp_A q k = 1" by (simp add: interval_cmp_A_def)
    have "(k0, v0) \<in> set_tree r"
      using Node.prems(2,3,4) a 3 c wl [of k0 v0] wk
      by (auto simp: interval_cmp_A_def split: if_splits)
    then show ?thesis using Node.IH(2) Node.prems a c by simp
  qed
qed

lemma set_tree_insert_node:
  "g_tree_find_node cmp t q = None \<Longrightarrow>
   set_tree (g_tree_insert_node cmp t q v) = insert (q, v) (set_tree t)"
  by (induction t) (auto split: if_splits)

lemma sorted_tree_A_insert:
  "sorted_tree_A t \<Longrightarrow> low q \<le> high q \<Longrightarrow> g_tree_find_node interval_cmp_A t q = None \<Longrightarrow>
   sorted_tree_A (g_tree_insert_node interval_cmp_A t q v)"
proof (induction t)
  case Leaf
  then show ?case by simp
next
  case (Node l a r)
  obtain k w where a: "a = (k, w)" by (cases a)
  have n0: "interval_cmp_A q k \<noteq> 0" using Node.prems(3) a by (auto split: if_splits)
  show ?case
  proof (cases "interval_cmp_A q k < 0")
    case True
    then have h: "high q < low k" by (auto simp: interval_cmp_A_def split: if_splits)
    have f: "g_tree_find_node interval_cmp_A l q = None" using Node.prems(3) a n0 True by simp
    show ?thesis
      using Node.IH(1) Node.prems(1,2) a n0 True h f by (auto simp: set_tree_insert_node)
  next
    case False
    then have h: "high k < low q" using n0 by (auto simp: interval_cmp_A_def split: if_splits)
    have f: "g_tree_find_node interval_cmp_A r q = None" using Node.prems(3) a n0 False by simp
    show ?thesis
      using Node.IH(2) Node.prems(1,2) a n0 False h f by (auto simp: set_tree_insert_node)
  qed
qed

lemma split_first_set:
  "g_tree_split_first l a r = (m, t') \<Longrightarrow> set_tree (Node l a r) = insert m (set_tree t')"
proof (induction l arbitrary: a r m t')
  case Leaf
  then show ?case by auto
next
  case (Node ll b lr)
  obtain m' l' where s: "g_tree_split_first ll b lr = (m', l')"
    by (cases "g_tree_split_first ll b lr") auto
  have e: "m = m'" "t' = Node l' a r" using Node.prems s by auto
  have ih: "set_tree ll \<union> {b} \<union> set_tree lr = insert m' (set_tree l')"
    using Node.IH(1) [OF s] by (simp only: tree.set)
  have "(set_tree ll \<union> {b} \<union> set_tree lr) \<union> {a} \<union> set_tree r
          = insert m' (set_tree l' \<union> {a} \<union> set_tree r)"
    unfolding ih by blast
  then show ?case unfolding e by (simp only: tree.set)
qed

lemma split_first_sorted:
  "g_tree_split_first l a r = (m, t') \<Longrightarrow> sorted_tree_A (Node l a r) \<Longrightarrow>
   sorted_tree_A t' \<and> (\<forall>e \<in> set_tree t'. high (fst m) < low (fst e))"
proof (induction l arbitrary: a r m t')
  case Leaf
  then show ?case by (cases a) auto
next
  case (Node ll b lr)
  obtain m' l' where s: "g_tree_split_first ll b lr = (m', l')"
    by (cases "g_tree_split_first ll b lr") auto
  obtain k v where a: "a = (k, v)" by (cases a)
  have p: "low k \<le> high k" "\<forall>e \<in> set_tree (Node ll b lr). high (fst e) < low k"
    "\<forall>e \<in> set_tree r. high k < low (fst e)" "sorted_tree_A (Node ll b lr)" "sorted_tree_A r"
    using Node.prems(2) unfolding a sorted_tree_A_Node by blast+
  have ih: "sorted_tree_A l'" "\<forall>e \<in> set_tree l'. high (fst m') < low (fst e)"
    using Node.IH(1) [OF s p(4)] by blast+
  have st: "set_tree (Node ll b lr) = insert m' (set_tree l')" using split_first_set [OF s] .
  have e: "m = m'" "t' = Node l' (k, v) r" using Node.prems(1) s a by auto
  have ml: "high (fst m') < low k" using p(2) st by blast
  have l'k: "\<forall>e \<in> set_tree l'. high (fst e) < low k" using p(2) st by blast
  have 1: "sorted_tree_A (Node l' (k, v) r)"
    unfolding sorted_tree_A_Node using p(1,3,5) ih(1) l'k by blast
  have 2: "\<forall>e \<in> set_tree (Node l' (k, v) r). high (fst m') < low (fst e)"
  proof
    fix x assume "x \<in> set_tree (Node l' (k, v) r)"
    then consider "x \<in> set_tree l'" | "x = (k, v)" | "x \<in> set_tree r" by auto
    then show "high (fst m') < low (fst x)"
    proof cases
      case 1
      then show ?thesis using ih(2) by blast
    next
      case 2
      then show ?thesis using ml by simp
    next
      case 3
      then have "high k < low (fst x)" using p(3) by blast
      then show ?thesis using ml p(1) by auto
    qed
  qed
  show ?case unfolding e using 1 2 by blast
qed

lemma remove_node_subset:
  "set_tree (g_tree_remove_node cmp t key) \<subseteq> set_tree t"
proof (induction t)
  case Leaf
  then show ?case by simp
next
  case (Node l a r)
  obtain k v where a: "a = (k, v)" by (cases a)
  show ?case
  proof (cases "cmp key k = 0")
    case True
    show ?thesis
    proof (cases l)
      case Leaf
      then show ?thesis using True a by auto
    next
      case ln: (Node l1 x l2)
      show ?thesis
      proof (cases r)
        case Leaf
        then show ?thesis using True a ln by auto
      next
        case rn: (Node rl b rr)
        obtain su r' where s: "g_tree_split_first rl b rr = (su, r')"
    by (cases "g_tree_split_first rl b rr") auto
        have "set_tree r = insert su (set_tree r')" using split_first_set [OF s] rn by simp
        then show ?thesis using True a ln rn s by auto
      qed
    qed
  next
    case False
    then show ?thesis using Node.IH a by auto
  qed
qed

lemma sorted_tree_A_remove:
  "sorted_tree_A t \<Longrightarrow> sorted_tree_A (g_tree_remove_node cmp t key)"
proof (induction t)
  case Leaf
  then show ?case by simp
next
  case (Node l a r)
  obtain k v where a: "a = (k, v)" by (cases a)
  have p: "low k \<le> high k" "\<forall>e \<in> set_tree l. high (fst e) < low k"
    "\<forall>e \<in> set_tree r. high k < low (fst e)" "sorted_tree_A l" "sorted_tree_A r"
    using Node.prems unfolding a sorted_tree_A_Node by blast+
  show ?case
  proof (cases "cmp key k = 0")
    case True
    show ?thesis
    proof (cases l)
      case Leaf
      then show ?thesis using True a p by simp
    next
      case ln: (Node l1 x l2)
      show ?thesis
      proof (cases r)
        case Leaf
        then show ?thesis using True a ln p by simp
      next
        case rn: (Node rl b rr)
        obtain su r' where s: "g_tree_split_first rl b rr = (su, r')"
          by (cases "g_tree_split_first rl b rr") auto
        obtain sk sv where su: "su = (sk, sv)" by (cases su)
        have q: "sorted_tree_A r'" "\<forall>e \<in> set_tree r'. high sk < low (fst e)"
          using split_first_sorted [OF s] p(5) rn su by auto
        have st: "set_tree r = insert su (set_tree r')" using split_first_set [OF s] rn by simp
        have ks: "high k < low sk" using p(3) st su by auto
        have ws: "low sk \<le> high sk"
          using sorted_tree_A_range [of r sk sv] p(5) st su by auto
        have ll: "\<forall>e \<in> set_tree l. high (fst e) < low sk"
        proof
          fix e assume "e \<in> set_tree l"
          then have "high (fst e) < low k" using p(2) by blast
          then show "high (fst e) < low sk" using ks p(1) by auto
        qed
        have "sorted_tree_A (Node l (sk, sv) r')"
          unfolding sorted_tree_A_Node using q ll ws p(4) by blast
        then show ?thesis using True a ln rn s su by simp
      qed
    qed
  next
    case False
    have sub: "set_tree (g_tree_remove_node cmp l key) \<subseteq> set_tree l"
      "set_tree (g_tree_remove_node cmp r key) \<subseteq> set_tree r"
      by (rule remove_node_subset)+
    have il: "sorted_tree_A (g_tree_remove_node cmp l key)" using Node.IH(1) p(4) .
    have ir: "sorted_tree_A (g_tree_remove_node cmp r key)" using Node.IH(2) p(5) .
    have 1: "sorted_tree_A (Node (g_tree_remove_node cmp l key) (k, v) r)"
      unfolding sorted_tree_A_Node using p sub(1) il by blast
    have 2: "sorted_tree_A (Node l (k, v) (g_tree_remove_node cmp r key))"
      unfolding sorted_tree_A_Node using p sub(2) ir by blast
    show ?thesis using False a 1 2 by simp
  qed
qed

lemma map_A_inval_iff:
  assumes "domains s (map_domain_A req) = Some dm"
    and "sorted_tree_A (root (domain_mappings dm))"
    and "map_virt_start_A req \<le> map_virt_end_A req"
  shows "(fst (virtio_iommu_map_A s req) = VIRTIO_IOMMU_S_INVAL) =
         (\<exists>(k, v) \<in> set_tree (root (domain_mappings dm)).
             interval_cmp_A \<lparr>low = map_virt_start_A req, high = map_virt_end_A req\<rparr> k = 0)"
proof -
  let ?q = "\<lparr>low = map_virt_start_A req, high = map_virt_end_A req\<rparr>"
  let ?t = "root (domain_mappings dm)"
  show ?thesis
  proof (cases "g_tree_find_node interval_cmp_A ?t ?q")
    case None
    have "\<not> (\<exists>(k, v) \<in> set_tree ?t. interval_cmp_A ?q k = 0)"
    proof
      assume "\<exists>(k, v) \<in> set_tree ?t. interval_cmp_A ?q k = 0"
      then obtain k v where "(k, v) \<in> set_tree ?t" "interval_cmp_A ?q k = 0" by auto
      then have "\<exists>e. g_tree_find_node interval_cmp_A ?t ?q = Some e"
        using find_node_exists_A [of ?t ?q k v] assms by simp
      then show False using None by simp
    qed
    then show ?thesis
      using None assms(1) by (simp add: virtio_iommu_map_A_def g_tree_lookup_def Let_def status_defs)
  next
    case (Some e)
    obtain k v where e: "e = (k, v)" by (cases e)
    have "(k, v) \<in> set_tree ?t \<and> interval_cmp_A ?q k = 0"
      using find_node_Some [of interval_cmp_A ?t ?q k v] Some e by simp
    then have "\<exists>(k, v) \<in> set_tree ?t. interval_cmp_A ?q k = 0" by auto
    then show ?thesis
      using Some assms(1) by (simp add: virtio_iommu_map_A_def g_tree_lookup_def Let_def)
  qed
qed

lemma map_A_sorted:
  assumes "all_sorted_A s" and "map_virt_start_A req \<le> map_virt_end_A req"
  shows "all_sorted_A (snd (virtio_iommu_map_A s req))"
proof (cases "domains s (map_domain_A req)")
  case None
  then show ?thesis using assms(1) by (simp add: virtio_iommu_map_A_def Let_def)
next
  case (Some dm)
  let ?q = "\<lparr>low = map_virt_start_A req, high = map_virt_end_A req\<rparr>"
  have st: "sorted_tree_A (root (domain_mappings dm))"
    using assms(1) Some by (auto simp: all_sorted_A_def)
  show ?thesis
  proof (cases "g_tree_find_node interval_cmp_A (root (domain_mappings dm)) ?q")
    case None
    then have "sorted_tree_A (g_tree_insert_node interval_cmp_A (root (domain_mappings dm)) ?q
                 \<lparr>phys_addr_A = map_phys_start_A req, flags_A = map_flags_A req\<rparr>)"
      using sorted_tree_A_insert [of "root (domain_mappings dm)" ?q] st assms(2) by simp
    then show ?thesis
      using None Some assms(1)
      by (auto simp: virtio_iommu_map_A_def g_tree_lookup_def Let_def all_sorted_A_def
          g_tree_insert_def split: if_splits)
  next
    case (Some e)
    then show ?thesis
      using \<open>domains s (map_domain_A req) = Some dm\<close> assms(1)
      by (simp add: virtio_iommu_map_A_def g_tree_lookup_def Let_def)
  qed
qed

lemma unmap_loop_A_sorted:
  assumes "unmap_loop_A t q = Some res" and "sorted_tree_A (root t)"
  shows "sorted_tree_A (root (snd res))"
proof -
  have "sorted_tree_A (root t) \<longrightarrow> sorted_tree_A (root (snd res))"
  proof (rule unmap_loop_A.raw_induct
      [where P = "\<lambda>t q res. sorted_tree_A (root t) \<longrightarrow> sorted_tree_A (root (snd res))",
       OF _ assms(1)])
    fix f t' q' y
    assume ih: "\<And>t q y. f t q = Some y \<Longrightarrow> sorted_tree_A (root t) \<longrightarrow> sorted_tree_A (root (snd y))"
      and st: "(case g_tree_lookup_extended interval_cmp_A t' q' of
                  None \<Rightarrow> Some (VIRTIO_IOMMU_S_OK, t')
                | Some (iter_key, iter_val) \<Rightarrow>
                    if low q' \<le> low iter_key \<and> high iter_key \<le> high q'
                    then f (g_tree_remove interval_cmp_A t' iter_key) q'
                    else Some (VIRTIO_IOMMU_S_RANGE, t')) = Some y"
    show "sorted_tree_A (root t') \<longrightarrow> sorted_tree_A (root (snd y))"
    proof
      assume s: "sorted_tree_A (root t')"
      show "sorted_tree_A (root (snd y))"
      proof (cases "g_tree_lookup_extended interval_cmp_A t' q'")
        case None
        then show ?thesis using st s by auto
      next
        case (Some e)
        obtain k v where e: "e = (k, v)" by (cases e)
        show ?thesis
        proof (cases "low q' \<le> low k \<and> high k \<le> high q'")
          case True
          then have "f (g_tree_remove interval_cmp_A t' k) q' = Some y"
            using st Some e by simp
          moreover have "sorted_tree_A (root (g_tree_remove interval_cmp_A t' k))"
            using s by (simp add: g_tree_remove_def sorted_tree_A_remove)
          ultimately show ?thesis using ih by blast
        next
          case False
          then show ?thesis using st Some e s by auto
        qed
      qed
    qed
  qed
  then show ?thesis using assms(2) by simp
qed

lemma unmap_A_sorted:
  assumes "all_sorted_A s" and "virtio_iommu_unmap_A s req = Some (ret, s')"
  shows "all_sorted_A s'"
proof (cases "domains s (unmap_domain_A req)")
  case None
  then show ?thesis using assms by (simp add: virtio_iommu_unmap_A_def)
next
  case (Some dm)
  let ?q = "\<lparr>low = unmap_virt_start_A req, high = unmap_virt_end_A req\<rparr>"
  obtain r t' where l: "unmap_loop_A (domain_mappings dm) ?q = Some (r, t')"
    using assms(2) Some by (auto simp: virtio_iommu_unmap_A_def split: option.splits)
  have "sorted_tree_A (root (domain_mappings dm))"
    using assms(1) Some by (auto simp: all_sorted_A_def)
  then have "sorted_tree_A (root t')" using unmap_loop_A_sorted [OF l] by simp
  then show ?thesis
    using assms Some l
    by (auto simp: virtio_iommu_unmap_A_def all_sorted_A_def split: if_splits)
qed

lemma unref_sorted: "sorted_tree_A (root t) \<Longrightarrow> sorted_tree_A (root (g_tree_unref t))"
  by (simp add: g_tree_unref_def)

lemma detach_endpoint_sorted:
  "all_sorted_A s \<Longrightarrow> all_sorted_A (virtio_iommu_detach_endpoint_from_domain s ep d)"
  by (auto simp: all_sorted_A_def virtio_iommu_detach_endpoint_from_domain_def unref_sorted
      split: option.splits if_splits)

lemma attach_A_sorted:
  assumes "all_sorted_A s"
  shows "all_sorted_A (snd (virtio_iommu_attach_A s req))"
proof -
  obtain ep s1 where g: "virtio_iommu_get_endpoint s (attach_endpoint_A req) = (ep, s1)"
    by (cases "virtio_iommu_get_endpoint s (attach_endpoint_A req)") auto
  have s1: "all_sorted_A s1"
    using g assms by (auto simp: virtio_iommu_get_endpoint_def all_sorted_A_def Let_def
        split: option.splits if_splits)
  define s2 where "s2 = (case ep_domain ep of
                           Some d \<Rightarrow> virtio_iommu_detach_endpoint_from_domain s1 ep d
                         | None \<Rightarrow> s1)"
  have s2: "all_sorted_A s2"
    using s1 by (auto simp: s2_def detach_endpoint_sorted split: option.splits)
  obtain dm s3 where h: "virtio_iommu_get_domain s2 (attach_domain_A req) = (dm, s3)"
    by (cases "virtio_iommu_get_domain s2 (attach_domain_A req)") auto
  have s3: "all_sorted_A s3 \<and> sorted_tree_A (root (domain_mappings dm))"
    using h s2 by (auto simp: virtio_iommu_get_domain_def all_sorted_A_def Let_def
        g_tree_new_full_def split: option.splits if_splits)
  show ?thesis
    using g h s3
    by (auto simp: virtio_iommu_attach_A_def Let_def s2_def [symmetric] all_sorted_A_def
        g_tree_ref_def split: if_splits)
qed

lemma detach_A_sorted:
  "all_sorted_A s \<Longrightarrow> all_sorted_A (snd (virtio_iommu_detach_A s req))"
  by (auto simp: virtio_iommu_detach_A_def detach_endpoint_sorted split: option.splits)

lemma init_A_sorted: "all_sorted_A (init_A features psm)"
  by (simp add: all_sorted_A_def init_A_def)

lemma run_A_sorted:
  "all_sorted_A s \<Longrightarrow> \<forall>c \<in> set cs. range_request_A c \<Longrightarrow> run_A s cs = Some s' \<Longrightarrow>
   all_sorted_A s'"
proof (induction cs arbitrary: s)
  case Nil
  then show ?case by simp
next
  case (Cons c cs)
  show ?case
  proof (cases c)
    case (ATTACH_A req)
    then show ?thesis
      using Cons.prems Cons.IH [of "snd (virtio_iommu_attach_A s req)"] attach_A_sorted [of s req]
      by (auto split: prod.splits if_splits)
  next
    case (DETACH_A req)
    then show ?thesis
      using Cons.prems Cons.IH [of "snd (virtio_iommu_detach_A s req)"] detach_A_sorted [of s req]
      by (auto split: prod.splits if_splits)
  next
    case (MAP_A req)
    then show ?thesis
      using Cons.prems Cons.IH [of "snd (virtio_iommu_map_A s req)"] map_A_sorted [of s req]
      by (auto split: prod.splits if_splits)
  next
    case (UNMAP_A req)
    then show ?thesis
      using Cons.prems Cons.IH unmap_A_sorted [of s req]
      by (auto split: option.splits prod.splits if_splits)
  qed
qed

lemma variant_A_no_overlap:
  assumes "\<forall>c \<in> set cs. range_request_A c" and "run_A (init_A features psm) cs = Some s"
    and "domains s d = Some dm"
    and "(k1, v1) \<in> set_tree (root (domain_mappings dm))"
    and "(k2, v2) \<in> set_tree (root (domain_mappings dm))"
    and "(k1, v1) \<noteq> (k2, v2)"
  shows "interval_cmp_A k1 k2 \<noteq> 0 \<and> {low k1..high k1} \<inter> {low k2..high k2} = {}"
proof -
  have "all_sorted_A s" using run_A_sorted [OF init_A_sorted assms(1,2)] .
  then have st: "sorted_tree_A (root (domain_mappings dm))"
    using assms(3) by (auto simp: all_sorted_A_def)
  have d: "high k1 < low k2 \<or> high k2 < low k1"
    using sorted_tree_A_disjoint [OF st assms(4,5,6)] .
  have w: "low k1 \<le> high k1" "low k2 \<le> high k2"
    using sorted_tree_A_range [OF st] assms(4,5) by blast+
  show ?thesis using d w by (auto simp: interval_cmp_A_def)
qed

lemma split_first_size:
  "g_tree_split_first l a r = (m, t') \<Longrightarrow> Suc (size t') = size (Node l a r)"
proof (induction l arbitrary: a r m t')
  case Leaf
  then show ?case by auto
next
  case (Node ll b lr)
  obtain m' l' where s: "g_tree_split_first ll b lr = (m', l')"
    by (cases "g_tree_split_first ll b lr") auto
  have e: "t' = Node l' a r" using Node.prems s by auto
  have "Suc (size l') = size (Node ll b lr)" using Node.IH(1) [OF s] .
  then show ?case unfolding e by simp
qed

lemma remove_node_size:
  "g_tree_find_node cmp t key = Some e \<Longrightarrow> size (g_tree_remove_node cmp t key) < size t"
proof (induction t)
  case Leaf
  then show ?case by simp
next
  case (Node l a r)
  obtain k v where a: "a = (k, v)" by (cases a)
  show ?case
  proof (cases "cmp key k = 0")
    case True
    show ?thesis
    proof (cases l)
      case Leaf
      then show ?thesis using True a by simp
    next
      case ln: (Node l1 x l2)
      show ?thesis
      proof (cases r)
        case Leaf
        then show ?thesis using True a ln by simp
      next
        case rn: (Node rl b rr)
        obtain su r' where s: "g_tree_split_first rl b rr = (su, r')"
          by (cases "g_tree_split_first rl b rr") auto
        have "Suc (size r') = size r" using split_first_size [OF s] rn by simp
        then show ?thesis using True a ln rn s by simp
      qed
    qed
  next
    case False
    then show ?thesis using Node a by (auto split: if_splits)
  qed
qed

lemma unmap_loop_A_returns:
  "sorted_tree_A (root t) \<Longrightarrow> \<exists>res. unmap_loop_A t q = Some res"
proof (induction "size (root t)" arbitrary: t rule: less_induct)
  case less
  show ?case
  proof (cases "g_tree_find_node interval_cmp_A (root t) q")
    case None
    then show ?thesis
      by (subst unmap_loop_A.simps) (simp add: g_tree_lookup_extended_def)
  next
    case (Some e)
    obtain k v where e: "e = (k, v)" by (cases e)
    show ?thesis
    proof (cases "low q \<le> low k \<and> high k \<le> high q")
      case False
      then show ?thesis
        using Some e by (subst unmap_loop_A.simps) (auto simp: g_tree_lookup_extended_def)
    next
      case True
      have m: "(k, v) \<in> set_tree (root t)"
        using find_node_Some [of interval_cmp_A "root t" q k v] Some e by simp
      have w: "low k \<le> high k" using sorted_tree_A_range [OF less.prems m] .
      have f: "g_tree_find_node interval_cmp_A (root t) k = Some (k, v)"
        using find_node_sorted_A [OF less.prems m, of k] w by simp
      let ?t' = "g_tree_remove interval_cmp_A t k"
      have "size (root ?t') < size (root t)"
        using remove_node_size [OF f] by (simp add: g_tree_remove_def)
      moreover have "sorted_tree_A (root ?t')"
        using less.prems by (simp add: g_tree_remove_def sorted_tree_A_remove)
      ultimately have "\<exists>res. unmap_loop_A ?t' q = Some res"
        using less.hyps by blast
      then show ?thesis
        using Some e True by (subst unmap_loop_A.simps) (simp add: g_tree_lookup_extended_def)
    qed
  qed
qed

lemma unmap_A_returns:
  "all_sorted_A s \<Longrightarrow> \<exists>res. virtio_iommu_unmap_A s req = Some res"
proof (cases "domains s (unmap_domain_A req)")
  case None
  then show ?thesis by (simp add: virtio_iommu_unmap_A_def)
next
  case (Some dm)
  assume "all_sorted_A s"
  then have "sorted_tree_A (root (domain_mappings dm))"
    using Some by (auto simp: all_sorted_A_def)
  then obtain res where "unmap_loop_A (domain_mappings dm)
      \<lparr>low = unmap_virt_start_A req, high = unmap_virt_end_A req\<rparr> = Some res"
    using unmap_loop_A_returns by blast
  then show ?thesis using Some by (cases res) (simp add: virtio_iommu_unmap_A_def)
qed

subsection \<open>UNMAP may not return\<close>

text \<open>
  When the search finds a mapping that the removal, which searches for the mapping's own
  key, does not find, the loop of UNMAP makes no progress. In variant A this happens for
  a key with \<open>virt_start\<close> above \<open>virt_end\<close>; in variant B for a mapping of one byte, which
  the comparator places before itself.
\<close>

lemma unmap_loop_A_never:
  assumes l: "g_tree_lookup_extended interval_cmp_A t q = Some (k, v)"
    and c: "low q \<le> low k" "high k \<le> high q"
    and r: "g_tree_remove interval_cmp_A t k = t"
  shows "unmap_loop_A t q = None"
proof (cases "unmap_loop_A t q")
  case None
  then show ?thesis .
next
  case (Some res)
  have "\<not> (t = t \<and> q = q)"
  proof (rule unmap_loop_A.raw_induct [where P = "\<lambda>t' q' y. \<not> (t' = t \<and> q' = q)", OF _ Some])
    fix f t' q' y
    assume ih: "\<And>t' q' y. f t' q' = Some y \<Longrightarrow> \<not> (t' = t \<and> q' = q)"
      and st: "(case g_tree_lookup_extended interval_cmp_A t' q' of
                  None \<Rightarrow> Some (VIRTIO_IOMMU_S_OK, t')
                | Some (iter_key, iter_val) \<Rightarrow>
                    if low q' \<le> low iter_key \<and> high iter_key \<le> high q'
                    then f (g_tree_remove interval_cmp_A t' iter_key) q'
                    else Some (VIRTIO_IOMMU_S_RANGE, t')) = Some y"
    show "\<not> (t' = t \<and> q' = q)"
    proof
      assume "t' = t \<and> q' = q"
      then have "f t q = Some y" using st l c r by simp
      then show False using ih by blast
    qed
  qed
  then show ?thesis by simp
qed


lemma unmap_loop_B_never:
  assumes st: "unmap_step_B s asid sz q m = Some (s, q)"
    and c: "\<not> high q \<le> low q"
    and l: "as_lookup s asid q = Some m"
  shows "unmap_loop_B s asid sz q (Some m) = None"
proof (cases "unmap_loop_B s asid sz q (Some m)")
  case None
  then show ?thesis .
next
  case (Some res)
  have "\<not> (s = s \<and> asid = asid \<and> sz = sz \<and> q = q \<and> Some m = Some m)"
  proof (rule unmap_loop_B.raw_induct
      [where P = "\<lambda>s' asid' sz' q' mo y.
                    \<not> (s' = s \<and> asid' = asid \<and> sz' = sz \<and> q' = q \<and> mo = Some m)",
       OF _ Some])
    fix f s' asid' sz' q' mo y
    assume ih: "\<And>s' asid' sz' q' mo y. f s' asid' sz' q' mo = Some y \<Longrightarrow>
                  \<not> (s' = s \<and> asid' = asid \<and> sz' = sz \<and> q' = q \<and> mo = Some m)"
      and b: "(case mo of
                 None \<Rightarrow> Some (VIRTIO_IOMMU_S_OK, s')
               | Some m \<Rightarrow>
                   (case unmap_step_B s' asid' sz' q' m of
                      None \<Rightarrow> Some (VIRTIO_IOMMU_S_INVAL, s')
                    | Some (s'', interval') \<Rightarrow>
                        if high interval' \<le> low interval' then Some (VIRTIO_IOMMU_S_OK, s'')
                        else f s'' asid' sz' interval' (as_lookup s'' asid' interval'))) = Some y"
    show "\<not> (s' = s \<and> asid' = asid \<and> sz' = sz \<and> q' = q \<and> mo = Some m)"
    proof
      assume "s' = s \<and> asid' = asid \<and> sz' = sz \<and> q' = q \<and> mo = Some m"
      then have "f s asid sz q (Some m) = Some y" using b st c l by simp
      then show False using ih by blast
    qed
  qed
  then show ?thesis by simp
qed

lemma unmap_A_inverted_key_never_returns:
  "mappings_of_A ex_A_inverted 1 =
     [(\<lparr>low = 10, high = 5\<rparr>, \<lparr>phys_addr_A = 0x5000, flags_A = 3\<rparr>)] \<and>
   virtio_iommu_unmap_A ex_A_inverted
     \<lparr>unmap_domain_A = 1, unmap_virt_start_A = 0, unmap_virt_end_A = 20\<rparr> = None"
proof -
  let ?t = "\<lparr>root = Node Leaf (\<lparr>low = 10, high = 5\<rparr>, \<lparr>phys_addr_A = 0x5000, flags_A = 3\<rparr>) Leaf,
             ref_count = 2 :: nat\<rparr>"
  have d: "domains ex_A_inverted 1 =
     Some \<lparr>domain_id = 1, domain_mappings = ?t, endpoint_list = [7]\<rparr>"
    by code_simp
  have "unmap_loop_A ?t \<lparr>low = 0, high = 20\<rparr> = None"
    by (rule unmap_loop_A_never [where k = "\<lparr>low = 10, high = 5\<rparr>"
          and v = "\<lparr>phys_addr_A = 0x5000, flags_A = 3\<rparr>"])
       (simp_all add: g_tree_lookup_extended_def g_tree_remove_def interval_cmp_A_def)
  then show ?thesis
    using d by (simp add: virtio_iommu_unmap_A_def mappings_of_A_def g_tree_entries_def)
qed

lemma unmap_B_one_byte_never_returns:
  "mappings_of_B ex_B_byte 1 =
     [(\<lparr>low = 0x1000, high = 0x1000\<rparr>,
       \<lparr>virt_addr = 0x1000, phys_addr = 0x5000, msize = 1, flags = 3\<rparr>)] \<and>
   virtio_iommu_unmap_B ex_B_byte
     \<lparr>unmap_address_space = 1, unmap_virt_addr = 0xfff, unmap_size = 3\<rparr> = None"
proof -
  let ?m = "\<lparr>virt_addr = 0x1000, phys_addr = 0x5000, msize = 1, flags = 3\<rparr>"
  let ?a = "\<lparr>as_id = 1,
             as_mappings = \<lparr>root = Node Leaf (\<lparr>low = 0x1000, high = 0x1000\<rparr>, ?m) Leaf,
                            ref_count = 2\<rparr>,
             device_list = [7]\<rparr>"
  have a: "address_spaces ex_B_byte 1 = Some ?a"
    by code_simp
  have n: "notifiers_list ex_B_byte = []"
    by code_simp
  have l: "as_lookup ex_B_byte 1 \<lparr>low = 0xfff, high = 0x1001\<rparr> = Some ?m"
    using a by (simp add: as_lookup_def g_tree_lookup_def interval_cmp_B_def)
  have r: "virtio_iommu_remove_mapping ex_B_byte 1 \<lparr>low = 0x1000, high = 0x1000\<rparr> = ex_B_byte"
    using a n
    by (simp add: virtio_iommu_remove_mapping_def g_tree_remove_def interval_cmp_B_def
        notify_attached_def map_upd_triv)
  have st: "unmap_step_B ex_B_byte 1 3 \<lparr>low = 0xfff, high = 0x1001\<rparr> ?m
              = Some (ex_B_byte, \<lparr>low = 0xfff, high = 0x1001\<rparr>)"
    using r by (simp add: unmap_step_B_def Let_def)
  have "unmap_loop_B ex_B_byte 1 3 \<lparr>low = 0xfff, high = 0x1001\<rparr> (Some ?m) = None"
    by (rule unmap_loop_B_never [OF st _ l]) simp
  then show ?thesis
    using a l by (simp add: virtio_iommu_unmap_B_def mappings_of_B_def g_tree_entries_def Let_def)
qed

lemma A_inverted_key_hides_mapping:
  "mappings_of_A ex_A_inverted_two 1 =
     [(\<lparr>low = 10, high = 5\<rparr>, \<lparr>phys_addr_A = 0x5000, flags_A = 3\<rparr>),
      (\<lparr>low = 6, high = 20\<rparr>, \<lparr>phys_addr_A = 0x6000, flags_A = 3\<rparr>)] \<and>
   map_option fst (virtio_iommu_unmap_A ex_A_inverted_two
     \<lparr>unmap_domain_A = 1, unmap_virt_start_A = 7, unmap_virt_end_A = 8\<rparr>)
     = Some VIRTIO_IOMMU_S_OK \<and>
   perm (virtio_iommu_translate_A ex_A_inverted_two \<lparr>bus_num = 0, devfn = 7\<rparr> 7 IOMMU_RO)
     = IOMMU_NONE"
  by code_simp

end
